theory Spec2Isabelle
  imports Main
begin

section \<open>Pointers, faults and the flow enum\<close>

text \<open>
  Pointers to handler sets, closures and field definitions are addresses; address 0 is the
  null pointer. Every operation of the C code whose behaviour is undefined (reading a frame
  outside the dispatcher's array, calling through a pointer that designates no handler set,
  overflowing the \<^verbatim>\<open>int\<close> depth counter) and every failing \<^verbatim>\<open>assert\<close> is a value of
  type \<open>fault\<close>, so that each of them is a visible branch of the model.
\<close>

type_synonym ptr = nat

abbreviation (input) NULL :: ptr where
  "NULL \<equiv> 0"

datatype fault =
    Assertion_Failed
  | Invalid_Frame int
  | Invalid_Handlerset ptr
  | Int_Overflow
  | Strlen_Overflow
  | Buffer_Overrun

text \<open>
  Modelled from the spec: the enum \<^verbatim>\<open>upb_flow_t\<close> is declared in \<^verbatim>\<open>upb_stream.h\<close>, which is
  not among the sources. The source uses \<^verbatim>\<open>UPB_CONTINUE\<close> and \<^verbatim>\<open>UPB_DELEGATE\<close>; the other two
  members are the ones the specification lists (CONTINUE, SKIP-SUBMSG, BREAK, DELEGATE).
\<close>

datatype upb_flow_t = UPB_CONTINUE | UPB_BREAK | UPB_SKIPSUBMSG | UPB_DELEGATE

text \<open>The limits of a 32-bit \<^verbatim>\<open>int\<close>, the type of a frame's depth counter.\<close>

definition INT_MAX :: int where
  "INT_MAX = 2147483647"

definition INT_MIN :: int where
  "INT_MIN = - 2147483648"

section \<open>Handlers\<close>

text \<open>
  \<^verbatim>\<open>struct _upb_handlers { upb_handlerset *set; void *closure; }\<close>. The field \<^verbatim>\<open>set\<close> is
  named \<open>set_ptr\<close> here, since \<open>set\<close> is a constant of HOL.
\<close>

record upb_handlers =
  set_ptr :: ptr
  closure :: ptr

type_synonym upb_value = int
type_synonym upb_field_number_t = int

text \<open>
  A handler set is the table of six callbacks the dispatcher calls through
  \<^verbatim>\<open>d->top->handlers.set\<close>. A callback receives the closure pointer and acts on whatever
  the closures point to; that memory is the user state \<open>'u\<close>, passed in and returned.
  The \<^verbatim>\<open>startsubmsg\<close> callback also receives the handlers out-parameter and returns its
  new contents. The callback \<^verbatim>\<open>value\<close> is named \<open>value_h\<close>. Callbacks are assumed not
  to touch the dispatcher itself.
\<close>

record 'u upb_handlerset =
  startmsg :: "ptr \<Rightarrow> 'u \<Rightarrow> 'u"
  endmsg :: "ptr \<Rightarrow> 'u \<Rightarrow> 'u"
  startsubmsg :: "ptr \<Rightarrow> ptr \<Rightarrow> upb_handlers \<Rightarrow> 'u \<Rightarrow> upb_flow_t \<times> upb_handlers \<times> 'u"
  endsubmsg :: "ptr \<Rightarrow> 'u \<Rightarrow> upb_flow_t \<times> 'u"
  value_h :: "ptr \<Rightarrow> ptr \<Rightarrow> upb_value \<Rightarrow> 'u \<Rightarrow> upb_flow_t \<times> 'u"
  unknownval :: "ptr \<Rightarrow> upb_field_number_t \<Rightarrow> upb_value \<Rightarrow> 'u \<Rightarrow> upb_flow_t \<times> 'u"

text \<open>The handler sets in memory: which addresses hold a handler set.\<close>

type_synonym 'u handlerset_memory = "ptr \<Rightarrow> 'u upb_handlerset option"

definition handlerset_at :: "'u handlerset_memory \<Rightarrow> ptr \<Rightarrow> fault + 'u upb_handlerset" where
  "handlerset_at hm p =
     (if p = NULL then Inl (Invalid_Handlerset p)
      else case hm p of None \<Rightarrow> Inl (Invalid_Handlerset p) | Some hs \<Rightarrow> Inr hs)"

definition upb_handlers_init :: "upb_handlers \<Rightarrow> upb_handlers" where
  "upb_handlers_init h = h"

definition upb_handlers_uninit :: "upb_handlers \<Rightarrow> upb_handlers" where
  "upb_handlers_uninit h = h"

definition upb_handlers_reset :: "upb_handlers \<Rightarrow> upb_handlers" where
  "upb_handlers_reset h = h\<lparr>set_ptr := NULL, closure := NULL\<rparr>"

definition upb_handlers_isempty :: "upb_handlers \<Rightarrow> bool" where
  "upb_handlers_isempty h = (\<not> (set_ptr h \<noteq> NULL) \<and> \<not> (closure h \<noteq> NULL))"

definition upb_register_handlerset :: "upb_handlers \<Rightarrow> ptr \<Rightarrow> upb_handlers" where
  "upb_register_handlerset h s = h\<lparr>set_ptr := s\<rparr>"

definition upb_set_handler_closure :: "upb_handlers \<Rightarrow> ptr \<Rightarrow> upb_handlers" where
  "upb_set_handler_closure h c = h\<lparr>closure := c\<rparr>"

section \<open>The dispatcher\<close>

text \<open>
  \<^verbatim>\<open>struct _upb_dispatcher { upb_dispatcher_frame stack[UPB_MAX_NESTING], *top, *limit; }\<close>.
  The array is the list \<open>stack\<close>, whose length is \<^verbatim>\<open>UPB_MAX_NESTING\<close>. The two frame
  pointers \<^verbatim>\<open>top\<close> and \<^verbatim>\<open>limit\<close> are kept as offsets from \<^verbatim>\<open>d->stack\<close>, counted in frames
  as C pointer arithmetic on \<^verbatim>\<open>upb_dispatcher_frame *\<close> counts them: \<open>top_ptr d = 0\<close> is
  \<^verbatim>\<open>d->top == d->stack\<close>, a negative offset lies before the array. The field \<^verbatim>\<open>top\<close> is
  named \<open>top_ptr\<close>, since \<open>top\<close> is a constant of HOL.
\<close>

record upb_dispatcher_frame =
  handlers :: upb_handlers
  depth :: int

record upb_dispatcher =
  stack :: "upb_dispatcher_frame list"
  top_ptr :: int
  limit :: int

text \<open>
  \<^verbatim>\<open>d->limit = d->stack + sizeof(d->stack);\<close> The operand \<^verbatim>\<open>sizeof(d->stack)\<close> is the size of
  the array in bytes, that is \<^verbatim>\<open>UPB_MAX_NESTING * sizeof(upb_dispatcher_frame)\<close>, and it is
  added to a pointer to frames. The size of one frame in bytes belongs to the platform and
  is the parameter \<open>frame_bytes\<close>.
\<close>

definition upb_dispatcher_init :: "nat \<Rightarrow> upb_dispatcher \<Rightarrow> upb_dispatcher" where
  "upb_dispatcher_init frame_bytes d =
     d\<lparr>limit := 0 + int (length (stack d) * frame_bytes)\<rparr>"

text \<open>Reading and writing the frame \<^verbatim>\<open>*d->top\<close>.\<close>

definition top_frame :: "upb_dispatcher \<Rightarrow> fault + upb_dispatcher_frame" where
  "top_frame d =
     (if 0 \<le> top_ptr d \<and> top_ptr d < int (length (stack d))
      then Inr (stack d ! nat (top_ptr d))
      else Inl (Invalid_Frame (top_ptr d)))"

definition set_top_frame :: "upb_dispatcher \<Rightarrow> upb_dispatcher_frame \<Rightarrow> upb_dispatcher" where
  "set_top_frame d fr = d\<lparr>stack := (stack d)[nat (top_ptr d) := fr]\<rparr>"

definition upb_dispatcher_reset :: "upb_dispatcher \<Rightarrow> upb_handlers \<Rightarrow> upb_dispatcher" where
  "upb_dispatcher_reset d h =
     (let d1 = d\<lparr>top_ptr := 0\<rparr>
      in set_top_frame d1 \<lparr>handlers = h, depth = 1\<rparr>)"

definition upb_dispatch_startmsg ::
  "'u handlerset_memory \<Rightarrow> upb_dispatcher \<Rightarrow> 'u \<Rightarrow> fault + (upb_dispatcher \<times> 'u)" where
  "upb_dispatch_startmsg hm d u =
     (if top_ptr d \<noteq> 0 then Inl Assertion_Failed
      else case top_frame d of Inl e \<Rightarrow> Inl e | Inr fr \<Rightarrow>
        (case handlerset_at hm (set_ptr (handlers fr)) of Inl e \<Rightarrow> Inl e | Inr hs \<Rightarrow>
           Inr (d, startmsg hs (closure (handlers fr)) u)))"

definition upb_dispatch_endmsg ::
  "'u handlerset_memory \<Rightarrow> upb_dispatcher \<Rightarrow> 'u \<Rightarrow> fault + (upb_dispatcher \<times> 'u)" where
  "upb_dispatch_endmsg hm d u =
     (if top_ptr d \<noteq> 0 then Inl Assertion_Failed
      else case top_frame d of Inl e \<Rightarrow> Inl e | Inr fr \<Rightarrow>
        (case handlerset_at hm (set_ptr (handlers fr)) of Inl e \<Rightarrow> Inl e | Inr hs \<Rightarrow>
           Inr (d, endmsg hs (closure (handlers fr)) u)))"

text \<open>\<^verbatim>\<open>++d->top->depth\<close>: signed overflow is undefined in C.\<close>

definition incr_top_depth :: "upb_dispatcher \<Rightarrow> fault + upb_dispatcher" where
  "incr_top_depth d =
     (case top_frame d of Inl e \<Rightarrow> Inl e | Inr fr \<Rightarrow>
        if depth fr = INT_MAX then Inl Int_Overflow
        else Inr (set_top_frame d (fr\<lparr>depth := depth fr + 1\<rparr>)))"

text \<open>
  The body of \<^verbatim>\<open>if (ret == UPB_DELEGATE) { ... }\<close>: advance \<^verbatim>\<open>d->top\<close>, store the delegated
  handlers with depth 0 in the new top frame, call the delegated set's \<^verbatim>\<open>startmsg\<close>.
\<close>

definition push_delegate ::
  "'u handlerset_memory \<Rightarrow> upb_dispatcher \<Rightarrow> upb_handlers \<Rightarrow> 'u \<Rightarrow> fault + (upb_dispatcher \<times> 'u)" where
  "push_delegate hm d hnd u =
     (let d1 = d\<lparr>top_ptr := top_ptr d + 1\<rparr>
      in case top_frame d1 of Inl e \<Rightarrow> Inl e | Inr fr \<Rightarrow>
        (let d2 = set_top_frame d1 (fr\<lparr>handlers := hnd, depth := 0\<rparr>)
         in case handlerset_at hm (set_ptr hnd) of Inl e \<Rightarrow> Inl e | Inr hs \<Rightarrow>
              Inr (d2, startmsg hs (closure hnd) u)))"

text \<open>
  The local variable \<^verbatim>\<open>handlers\<close> of \<^verbatim>\<open>upb_dispatch_startsubmsg\<close> is uninitialised memory
  until \<^verbatim>\<open>upb_handlers_reset\<close> overwrites both of its fields; \<open>local_handlers\<close> stands for
  that memory.
\<close>

definition local_handlers :: upb_handlers where
  "local_handlers = \<lparr>set_ptr = NULL, closure = NULL\<rparr>"

definition upb_dispatch_startsubmsg ::
  "'u handlerset_memory \<Rightarrow> upb_dispatcher \<Rightarrow> ptr \<Rightarrow> 'u
     \<Rightarrow> fault + (upb_flow_t \<times> upb_dispatcher \<times> 'u)" where
  "upb_dispatch_startsubmsg hm d f u =
     (let h0 = upb_handlers_reset (upb_handlers_init local_handlers)
      in case top_frame d of Inl e \<Rightarrow> Inl e | Inr fr \<Rightarrow>
        (case handlerset_at hm (set_ptr (handlers fr)) of Inl e \<Rightarrow> Inl e | Inr hs \<Rightarrow>
          (case startsubmsg hs (closure (handlers fr)) f h0 u of (ret, hnd, u1) \<Rightarrow>
             if (ret = UPB_DELEGATE) \<noteq> (\<not> upb_handlers_isempty hnd) then Inl Assertion_Failed
             else
               (case (if ret = UPB_DELEGATE
                      then (case push_delegate hm d hnd u1 of Inl e \<Rightarrow> Inl e
                            | Inr (d1, u2) \<Rightarrow> Inr (UPB_CONTINUE, d1, u2))
                      else Inr (ret, d, u1)) of
                  Inl e \<Rightarrow> Inl e
                | Inr (ret1, d1, u2) \<Rightarrow>
                    (case incr_top_depth d1 of Inl e \<Rightarrow> Inl e
                     | Inr d2 \<Rightarrow> Inr (ret1, d2, u2))))))"

text \<open>
  \<^verbatim>\<open>if (--d->top->depth == 0) { endmsg; --d->top; }\<close> followed by the call of the
  \<^verbatim>\<open>endsubmsg\<close> callback of whatever frame \<^verbatim>\<open>d->top\<close> then designates.
\<close>

definition upb_dispatch_endsubmsg ::
  "'u handlerset_memory \<Rightarrow> upb_dispatcher \<Rightarrow> 'u \<Rightarrow> fault + (upb_flow_t \<times> upb_dispatcher \<times> 'u)" where
  "upb_dispatch_endsubmsg hm d u =
     (case top_frame d of Inl e \<Rightarrow> Inl e | Inr fr \<Rightarrow>
        if depth fr = INT_MIN then Inl Int_Overflow
        else
          (let d1 = set_top_frame d (fr\<lparr>depth := depth fr - 1\<rparr>)
           in case (if depth fr - 1 = 0
                    then (case handlerset_at hm (set_ptr (handlers fr)) of Inl e \<Rightarrow> Inl e
                          | Inr hs \<Rightarrow>
                              Inr (d1\<lparr>top_ptr := top_ptr d1 - 1\<rparr>, endmsg hs (closure (handlers fr)) u))
                    else Inr (d1, u)) of
                Inl e \<Rightarrow> Inl e
              | Inr (d2, u1) \<Rightarrow>
                  (case top_frame d2 of Inl e \<Rightarrow> Inl e | Inr fr2 \<Rightarrow>
                    (case handlerset_at hm (set_ptr (handlers fr2)) of Inl e \<Rightarrow> Inl e
                     | Inr hs2 \<Rightarrow>
                         (case endsubmsg hs2 (closure (handlers fr2)) u1 of
                            (ret, u2) \<Rightarrow> Inr (ret, d2, u2))))))"

definition upb_dispatch_value ::
  "'u handlerset_memory \<Rightarrow> upb_dispatcher \<Rightarrow> ptr \<Rightarrow> upb_value \<Rightarrow> 'u
     \<Rightarrow> fault + (upb_flow_t \<times> upb_dispatcher \<times> 'u)" where
  "upb_dispatch_value hm d f val u =
     (case top_frame d of Inl e \<Rightarrow> Inl e | Inr fr \<Rightarrow>
        (case handlerset_at hm (set_ptr (handlers fr)) of Inl e \<Rightarrow> Inl e | Inr hs \<Rightarrow>
           (case value_h hs (closure (handlers fr)) f val u of (ret, u1) \<Rightarrow> Inr (ret, d, u1))))"

definition upb_dispatch_unknownval ::
  "'u handlerset_memory \<Rightarrow> upb_dispatcher \<Rightarrow> upb_field_number_t \<Rightarrow> upb_value \<Rightarrow> 'u
     \<Rightarrow> fault + (upb_flow_t \<times> upb_dispatcher \<times> 'u)" where
  "upb_dispatch_unknownval hm d fieldnum val u =
     (case top_frame d of Inl e \<Rightarrow> Inl e | Inr fr \<Rightarrow>
        (case handlerset_at hm (set_ptr (handlers fr)) of Inl e \<Rightarrow> Inl e | Inr hs \<Rightarrow>
           (case unknownval hs (closure (handlers fr)) fieldnum val u of
              (ret, u1) \<Rightarrow> Inr (ret, d, u1))))"

section \<open>Sequences of dispatch operations\<close>

text \<open>
  A decoder drives the dispatcher by calling the six dispatch functions one after the
  other. \<open>dispatch_op\<close> names one call with its arguments, \<open>upb_dispatch\<close> performs it
  (the flow value returned to the decoder is dropped), and \<open>run\<close> performs a sequence of
  calls, stopping at the first fault.
\<close>

datatype dispatch_op =
    Startmsg
  | Endmsg
  | Startsubmsg ptr
  | Endsubmsg
  | Value ptr upb_value
  | Unknownval upb_field_number_t upb_value

definition drop_flow :: "fault + (upb_flow_t \<times> upb_dispatcher \<times> 'u) \<Rightarrow> fault + (upb_dispatcher \<times> 'u)" where
  "drop_flow r = (case r of Inl e \<Rightarrow> Inl e | Inr (ret, d, u) \<Rightarrow> Inr (d, u))"

fun upb_dispatch ::
  "'u handlerset_memory \<Rightarrow> dispatch_op \<Rightarrow> upb_dispatcher \<Rightarrow> 'u \<Rightarrow> fault + (upb_dispatcher \<times> 'u)" where
  "upb_dispatch hm Startmsg d u = upb_dispatch_startmsg hm d u"
| "upb_dispatch hm Endmsg d u = upb_dispatch_endmsg hm d u"
| "upb_dispatch hm (Startsubmsg f) d u = drop_flow (upb_dispatch_startsubmsg hm d f u)"
| "upb_dispatch hm Endsubmsg d u = drop_flow (upb_dispatch_endsubmsg hm d u)"
| "upb_dispatch hm (Value f v) d u = drop_flow (upb_dispatch_value hm d f v u)"
| "upb_dispatch hm (Unknownval n v) d u = drop_flow (upb_dispatch_unknownval hm d n v u)"

fun run ::
  "'u handlerset_memory \<Rightarrow> dispatch_op list \<Rightarrow> upb_dispatcher \<Rightarrow> 'u \<Rightarrow> fault + (upb_dispatcher \<times> 'u)" where
  "run hm [] d u = Inr (d, u)"
| "run hm (ev # evs) d u =
     (case upb_dispatch hm ev d u of Inl e \<Rightarrow> Inl e | Inr (d1, u1) \<Rightarrow> run hm evs d1 u1)"

text \<open>
  A sequence is well nested below \<open>cap\<close> when, starting with \<open>k\<close> submessages open,
  no end-submsg arrives while no submessage is open, and fewer than \<open>cap\<close> submessages
  are open at any time. This is what a decoder that checks its own nesting depth against
  the stack capacity before each start-submsg produces.
\<close>

fun well_nested :: "nat \<Rightarrow> nat \<Rightarrow> dispatch_op list \<Rightarrow> bool" where
  "well_nested cap k [] = True"
| "well_nested cap k (Startsubmsg f # evs) = (k + 1 < cap \<and> well_nested cap (k + 1) evs)"
| "well_nested cap k (Endsubmsg # evs) = (0 < k \<and> well_nested cap (k - 1) evs)"
| "well_nested cap k (ev # evs) = well_nested cap k evs"

text \<open>
  The contract of a \<^verbatim>\<open>startsubmsg\<close> callback: called with the empty out-parameter the
  dispatcher passes, it returns \<^verbatim>\<open>UPB_DELEGATE\<close> exactly when it leaves the out-parameter
  non-empty.
\<close>

definition delegate_contract :: "'u upb_handlerset \<Rightarrow> bool" where
  "delegate_contract hs =
     (\<forall>c f u.
        (fst (startsubmsg hs c f \<lparr>set_ptr = NULL, closure = NULL\<rparr> u) = UPB_DELEGATE)
          = (\<not> upb_handlers_isempty
                 (fst (snd (startsubmsg hs c f \<lparr>set_ptr = NULL, closure = NULL\<rparr> u)))))"

text \<open>
  The invariant of the frames in use, for the proofs below: \<open>live d\<close> are the frames from
  the base of the array up to \<^verbatim>\<open>d->top\<close>; each of them has depth at least 1, and with \<open>k\<close>
  submessages open their depths add up to \<open>k + 1\<close>. A fault is a handler fault when it is
  caused by the handler sets (a failed assertion, a pointer to no handler set) and not by
  the dispatcher's own stack.
\<close>

definition handler_fault :: "fault \<Rightarrow> bool" where
  "handler_fault e = (case e of Assertion_Failed \<Rightarrow> True | Invalid_Handlerset p \<Rightarrow> True | _ \<Rightarrow> False)"

definition live :: "upb_dispatcher \<Rightarrow> upb_dispatcher_frame list" where
  "live d = take (nat (top_ptr d) + 1) (stack d)"

definition frames_ok :: "upb_dispatcher \<Rightarrow> nat \<Rightarrow> bool" where
  "frames_ok d k \<longleftrightarrow>
     0 \<le> top_ptr d \<and> top_ptr d < int (length (stack d))
     \<and> (\<forall>fr \<in> set (live d). 1 \<le> depth fr)
     \<and> sum_list (map depth (live d)) = int k + 1"

definition step_ok :: "upb_dispatcher \<Rightarrow> nat \<Rightarrow> fault + (upb_dispatcher \<times> 'u) \<Rightarrow> bool" where
  "step_ok d k r =
     (case r of
        Inl e \<Rightarrow> handler_fault e
      | Inr (d', u') \<Rightarrow>
          frames_ok d' k \<and> length (stack d') = length (stack d) \<and> limit d' = limit d)"

section \<open>Byte sources\<close>

text \<open>
  Modelled from the spec: \<^verbatim>\<open>upb_status\<close>, \<^verbatim>\<open>upb_copyerr\<close>, \<^verbatim>\<open>upb_string\<close>,
  \<^verbatim>\<open>upb_string_len\<close> and \<^verbatim>\<open>upb_string_getrwbuf\<close> are declared in headers that are not
  among the sources. A status is a compound of an error code and a diagnostic message, and
  \<^verbatim>\<open>upb_copyerr(to, from)\<close> copies \<open>from\<close> into \<open>to\<close>. A string is a growable sequence of
  bytes; \<^verbatim>\<open>upb_string_getrwbuf(str, n)\<close> resizes it to \<open>n\<close> bytes, keeping the bytes it
  already holds, and hands out its buffer for writing. The bytes a resize adds are
  indeterminate in C; the model fills them with zero bytes.
\<close>

record upb_status =
  status_code :: int
  status_msg :: string

definition upb_copyerr :: "upb_status \<Rightarrow> upb_status \<Rightarrow> upb_status" where
  "upb_copyerr to from = from"

type_synonym upb_string = string

definition upb_string_len :: "upb_string \<Rightarrow> int" where
  "upb_string_len str = int (length str)"

definition upb_string_getrwbuf :: "upb_string \<Rightarrow> int \<Rightarrow> upb_string" where
  "upb_string_getrwbuf str n = take (nat n) str @ replicate (nat n - length str) (CHR 0x00)"

text \<open>
  Writing the bytes \<open>written\<close> into the buffer of \<open>str\<close> at offset \<open>off\<close>, as a \<^verbatim>\<open>read\<close>
  into \<^verbatim>\<open>buf + len\<close> does.
\<close>

definition store_at :: "upb_string \<Rightarrow> int \<Rightarrow> string \<Rightarrow> upb_string" where
  "store_at str off written = take (nat off) str @ written @ drop (nat off + length written) str"

text \<open>
  \<^verbatim>\<open>struct _upb_bytesrc { upb_bytesrc_vtable *vtbl; upb_status status; bool eof; }\<close> is the
  base of every concrete byte source; \<open>impl\<close> is the part the concrete source adds. The
  two virtual functions act on the whole source. \<^verbatim>\<open>read(src, buf, count)\<close> returns its
  result, the bytes it stored at the start of \<open>buf\<close>, and the source afterwards;
  \<^verbatim>\<open>getstr(src, str, count)\<close> returns its result, the new contents of \<open>str\<close>, and the
  source afterwards. The vtable a source points to is passed alongside the source, so
  \<^verbatim>\<open>src->vtbl\<close> is the argument \<open>vt\<close> of the functions below.
\<close>

record 'i upb_bytesrc =
  status :: upb_status
  eof :: bool
  impl :: 'i

record 'i upb_bytesrc_vtable =
  read :: "'i upb_bytesrc \<Rightarrow> int \<Rightarrow> int \<times> string \<times> 'i upb_bytesrc"
  getstr :: "'i upb_bytesrc \<Rightarrow> upb_string \<Rightarrow> int \<Rightarrow> bool \<times> upb_string \<times> 'i upb_bytesrc"

definition upb_bytesrc_read ::
  "'i upb_bytesrc_vtable \<Rightarrow> 'i upb_bytesrc \<Rightarrow> int \<Rightarrow> int \<times> string \<times> 'i upb_bytesrc" where
  "upb_bytesrc_read vt src count = read vt src count"

definition upb_bytesrc_getstr ::
  "'i upb_bytesrc_vtable \<Rightarrow> 'i upb_bytesrc \<Rightarrow> upb_string \<Rightarrow> int
     \<Rightarrow> bool \<times> upb_string \<times> 'i upb_bytesrc" where
  "upb_bytesrc_getstr vt src str count = getstr vt src str count"

definition upb_bytesrc_status :: "'i upb_bytesrc \<Rightarrow> upb_status" where
  "upb_bytesrc_status src = status src"

definition upb_bytesrc_eof :: "'i upb_bytesrc \<Rightarrow> bool" where
  "upb_bytesrc_eof src = eof src"

text \<open>\<^verbatim>\<open>const size_t bufsize = 4096;\<close>\<close>

definition bufsize :: int where
  "bufsize = 4096"

text \<open>
  The loop \<^verbatim>\<open>while (!upb_bytesrc_eof(src)) { ... }\<close> of \<^verbatim>\<open>upb_bytesrc_getfullstr\<close>. It may
  run forever, so it is a partial function: \<open>None\<close> is the loop that never ends. A result
  \<open>Inr (ok, str, src)\<close> is the loop left normally (\<open>ok\<close>) or through \<^verbatim>\<open>goto error\<close>, with the
  string and the source as they then are. The parameter \<open>strlen_max\<close> is
  \<^verbatim>\<open>UPB_STRLEN_MAX\<close>, the largest value of \<^verbatim>\<open>upb_strlen_t\<close>, whose declaration is not among
  the sources; a length beyond it is the fault \<open>Strlen_Overflow\<close>, and a \<^verbatim>\<open>read\<close> that
  stores more than \<open>bufsize\<close> bytes writes past the buffer, the fault \<open>Buffer_Overrun\<close>.
\<close>

partial_function (option) getfullstr_loop ::
  "'i upb_bytesrc_vtable \<Rightarrow> int \<Rightarrow> 'i upb_bytesrc \<Rightarrow> upb_string
     \<Rightarrow> (fault + (bool \<times> upb_string \<times> 'i upb_bytesrc)) option" where
  "getfullstr_loop vt strlen_max src str =
     (if upb_bytesrc_eof src then Some (Inr (True, str, src))
      else
        (let len = upb_string_len str
         in if strlen_max < len + bufsize then Some (Inl Strlen_Overflow)
            else
              (let str1 = upb_string_getrwbuf str (len + bufsize)
               in case upb_bytesrc_read vt src bufsize of (rd, written, src1) \<Rightarrow>
                    if bufsize < int (length written) then Some (Inl Buffer_Overrun)
                    else if rd < 0 then Some (Inr (False, store_at str1 len written, src1))
                    else if strlen_max < len + rd then Some (Inl Strlen_Overflow)
                    else getfullstr_loop vt strlen_max src1
                           (upb_string_getrwbuf (store_at str1 len written) (len + rd)))))"

text \<open>
  \<^verbatim>\<open>upb_bytesrc_getfullstr(src, str, status)\<close>: one \<^verbatim>\<open>getstr\<close> of up to \<^verbatim>\<open>UPB_STRLEN_MAX\<close>
  bytes, then the loop. The result is the returned boolean, the string, the source and
  the caller's status, which \<^verbatim>\<open>upb_copyerr\<close> overwrites on the error path only.
\<close>

definition upb_bytesrc_getfullstr ::
  "'i upb_bytesrc_vtable \<Rightarrow> int \<Rightarrow> 'i upb_bytesrc \<Rightarrow> upb_string \<Rightarrow> upb_status
     \<Rightarrow> (fault + (bool \<times> upb_string \<times> 'i upb_bytesrc \<times> upb_status)) option" where
  "upb_bytesrc_getfullstr vt strlen_max src str st =
     (case upb_bytesrc_getstr vt src str strlen_max of (ok, str1, src1) \<Rightarrow>
        if \<not> ok then Some (Inr (False, str1, src1, upb_copyerr st (upb_bytesrc_status src1)))
        else
          (case getfullstr_loop vt strlen_max src1 str1 of
             None \<Rightarrow> None
           | Some (Inl e) \<Rightarrow> Some (Inl e)
           | Some (Inr (ok2, str2, src2)) \<Rightarrow>
               if ok2 then Some (Inr (True, str2, src2, st))
               else Some (Inr (False, str2, src2, upb_copyerr st (upb_bytesrc_status src2)))))"


subsection \<open>The contract of a byte source\<close>




text \<open>
  Some \<^verbatim>\<open>read\<close> of the loop returns a negative value:
  \<open>read_fails vt strlen_max src str str' src'\<close> holds when the loop, entered with the
  source \<open>src\<close> and the string \<open>str\<close>, reaches after finitely many successful reads a
  \<^verbatim>\<open>read\<close> whose result is negative; \<open>src'\<close> is the source exactly as that \<^verbatim>\<open>read\<close> returned
  it, and \<open>str'\<close> the string at that moment (grown for the read, holding what the read
  stored).
\<close>

inductive read_fails ::
  "'i upb_bytesrc_vtable \<Rightarrow> int \<Rightarrow> 'i upb_bytesrc \<Rightarrow> upb_string \<Rightarrow> upb_string \<Rightarrow> 'i upb_bytesrc \<Rightarrow> bool"
  for vt :: "'i upb_bytesrc_vtable" and smax :: int where
  fails_now:
    "\<not> upb_bytesrc_eof src \<Longrightarrow> upb_string_len str + bufsize \<le> smax \<Longrightarrow>
     upb_bytesrc_read vt src bufsize = (rd, written, src1) \<Longrightarrow>
     int (length written) \<le> bufsize \<Longrightarrow> rd < 0 \<Longrightarrow>
     read_fails vt smax src str
       (store_at (upb_string_getrwbuf str (upb_string_len str + bufsize)) (upb_string_len str) written)
       src1"
| fails_later:
    "\<not> upb_bytesrc_eof src \<Longrightarrow> upb_string_len str + bufsize \<le> smax \<Longrightarrow>
     upb_bytesrc_read vt src bufsize = (rd, written, src1) \<Longrightarrow>
     int (length written) \<le> bufsize \<Longrightarrow> 0 \<le> rd \<Longrightarrow> upb_string_len str + rd \<le> smax \<Longrightarrow>
     read_fails vt smax src1
       (upb_string_getrwbuf
          (store_at (upb_string_getrwbuf str (upb_string_len str + bufsize)) (upb_string_len str) written)
          (upb_string_len str + rd))
       str' src' \<Longrightarrow>
     read_fails vt smax src str str' src'"

section \<open>Reference-counted objects\<close>

text \<open>
  \<^verbatim>\<open>struct upb_refcounted\<close> as the header declares it, without the two tables of the
  \<^verbatim>\<open>UPB_DEBUG_REFS\<close> build. The fields \<^verbatim>\<open>group\<close> and \<^verbatim>\<open>next\<close> are named \<open>group_ptr\<close> and
  \<open>next_ptr\<close>: \<open>group\<close> is a constant of HOL and \<open>next\<close> a keyword of Isabelle. The two
  counts are \<^verbatim>\<open>uint32_t\<close>.
\<close>

record upb_refcounted =
  group_ptr :: ptr
  next_ptr :: ptr
  vtbl :: ptr
  individual_count :: nat
  is_frozen :: bool

text \<open>
  \<^verbatim>\<open>#define UPB_REFCOUNT_INIT(refs, ref2s) {&static_refcount, NULL, NULL, 0, true}\<close>. The
  argument is the address of \<^verbatim>\<open>static_refcount\<close>, the counter shared by all compiled-in
  objects.
\<close>

definition UPB_REFCOUNT_INIT :: "ptr \<Rightarrow> upb_refcounted" where
  "UPB_REFCOUNT_INIT static_refcount =
     \<lparr>group_ptr = static_refcount, next_ptr = NULL, vtbl = NULL, individual_count = 0, is_frozen = True\<rparr>"

section \<open>Example handler sets and dispatchers\<close>

text \<open>
  Handler sets for the concrete instances below. The user state is a trace: each callback
  appends its name and the closure pointer it was called with. \<open>S1\<close> delegates every
  submessage to the handler set at address 2 with closure 20; \<open>S2\<close> continues into
  itself; \<open>S3\<close> breaks the contract by returning \<^verbatim>\<open>UPB_DELEGATE\<close> without filling the
  out-parameter; \<open>S4\<close> delegates every submessage to itself.
\<close>

type_synonym trace = "(string \<times> ptr) list"

definition tracing_set ::
  "string \<Rightarrow> upb_flow_t \<Rightarrow> (upb_handlers \<Rightarrow> upb_handlers) \<Rightarrow> trace upb_handlerset" where
  "tracing_set name ret out =
     \<lparr>startmsg = (\<lambda>c u. u @ [(name @ ''.startmsg'', c)]),
      endmsg = (\<lambda>c u. u @ [(name @ ''.endmsg'', c)]),
      startsubmsg = (\<lambda>c f h u. (ret, out h, u @ [(name @ ''.startsubmsg'', c)])),
      endsubmsg = (\<lambda>c u. (UPB_CONTINUE, u @ [(name @ ''.endsubmsg'', c)])),
      value_h = (\<lambda>c f v u. (UPB_CONTINUE, u @ [(name @ ''.value'', c)])),
      unknownval = (\<lambda>c n v u. (UPB_CONTINUE, u @ [(name @ ''.unknownval'', c)]))\<rparr>"

definition S1 :: "trace upb_handlerset" where
  "S1 = tracing_set ''S1'' UPB_DELEGATE
          (\<lambda>h. upb_set_handler_closure (upb_register_handlerset h 2) 20)"

definition S2 :: "trace upb_handlerset" where
  "S2 = tracing_set ''S2'' UPB_CONTINUE (\<lambda>h. h)"

definition S3 :: "trace upb_handlerset" where
  "S3 = tracing_set ''S3'' UPB_DELEGATE (\<lambda>h. h)"

definition S4 :: "trace upb_handlerset" where
  "S4 = tracing_set ''S4'' UPB_DELEGATE
          (\<lambda>h. upb_set_handler_closure (upb_register_handlerset h 4) 40)"

definition example_memory :: "trace handlerset_memory" where
  "example_memory = (\<lambda>p. if p = 1 then Some S1 else if p = 2 then Some S2 else None)"

definition faulty_memory :: "trace handlerset_memory" where
  "faulty_memory = (\<lambda>p. if p = 3 then Some S3 else None)"

definition nesting_memory :: "trace handlerset_memory" where
  "nesting_memory = (\<lambda>p. if p = 4 then Some S4 else None)"

definition blank_dispatcher :: "nat \<Rightarrow> upb_dispatcher" where
  "blank_dispatcher n =
     \<lparr>stack = replicate n \<lparr>handlers = \<lparr>set_ptr = NULL, closure = NULL\<rparr>, depth = 0\<rparr>,
      top_ptr = 0, limit = 0\<rparr>"

definition example_dispatcher :: "ptr \<Rightarrow> ptr \<Rightarrow> upb_dispatcher" where
  "example_dispatcher s c =
     upb_dispatcher_reset (upb_dispatcher_init 24 (blank_dispatcher 4)) \<lparr>set_ptr = s, closure = c\<rparr>"

section \<open>Example byte sources\<close>

text \<open>
  An in-memory byte source for the concrete instances below. It counts the calls of its
  two virtual functions. \<^verbatim>\<open>getstr\<close> hands out at most \<open>lim\<close> bytes (an aliasing source
  hands out its whole buffer), \<^verbatim>\<open>read\<close> copies the next bytes; both set \<^verbatim>\<open>eof\<close> when
  nothing is left. \<open>failing_vtable\<close> is a source whose \<^verbatim>\<open>read\<close> (and, when asked, whose
  \<^verbatim>\<open>getstr\<close>) reports an error and sets its status; \<open>stalled_vtable\<close> is a source that
  never has data and never reaches end of stream. \<open>status_stale\<close> is a status a caller may
  hold before the call, different from every status a source below ever has.
\<close>

record memsrc =
  data :: string
  pos :: nat
  getstr_calls :: nat
  read_calls :: nat





definition status_ok :: upb_status where
  "status_ok = \<lparr>status_code = 0, status_msg = []\<rparr>"

definition status_io_error :: upb_status where
  "status_io_error = \<lparr>status_code = 5, status_msg = ''read failed''\<rparr>"

definition status_stale :: upb_status where
  "status_stale = \<lparr>status_code = 2, status_msg = ''earlier''\<rparr>"


definition failing_vtable :: "bool \<Rightarrow> unit upb_bytesrc_vtable" where
  "failing_vtable getstr_ok =
     \<lparr>read = (\<lambda>src count. (- 1, [], src\<lparr>status := status_io_error\<rparr>)),
      getstr = (\<lambda>src str count.
        (getstr_ok, [], if getstr_ok then src else src\<lparr>status := status_io_error\<rparr>))\<rparr>"


definition open_source :: "unit upb_bytesrc" where
  "open_source = \<lparr>status = status_ok, eof = False, impl = ()\<rparr>"


section \<open>Basic facts about frames and the dispatch functions\<close>

lemma top_frame_Inr:
  "top_frame d = Inr fr \<longleftrightarrow> 0 \<le> top_ptr d \<and> top_ptr d < int (length (stack d)) \<and> fr = stack d ! nat (top_ptr d)"
  by (auto simp: top_frame_def)

lemma top_frame_set_top_frame:
  "0 \<le> top_ptr d \<Longrightarrow> top_ptr d < int (length (stack d)) \<Longrightarrow> top_frame (set_top_frame d fr) = Inr fr"
  by (simp add: top_frame_def set_top_frame_def)

lemma set_top_frame_twice:
  "set_top_frame (set_top_frame d fr) fr' = set_top_frame d fr'"
  by (simp add: set_top_frame_def)

lemma set_top_frame_same:
  "top_frame d = Inr fr \<Longrightarrow> set_top_frame d fr = d"
  by (auto simp: top_frame_def set_top_frame_def split: if_splits)

lemma set_top_frame_fields [simp]:
  "length (stack (set_top_frame d fr)) = length (stack d)"
  "limit (set_top_frame d fr) = limit d"
  "top_ptr (set_top_frame d fr) = top_ptr d"
  by (simp_all add: set_top_frame_def)

lemma frame_overwrite:
  "fr\<lparr>handlers := h, depth := n\<rparr> = \<lparr>handlers = h, depth = n\<rparr>"
  by (cases fr) simp

lemma h0_empty:
  "upb_handlers_reset (upb_handlers_init local_handlers) = \<lparr>set_ptr = NULL, closure = NULL\<rparr>"
  by (simp add: upb_handlers_reset_def upb_handlers_init_def local_handlers_def)

lemma handlerset_at_not_assert: "handlerset_at hm p \<noteq> Inl Assertion_Failed"
  by (simp add: handlerset_at_def split: option.splits)

lemma top_frame_not_assert: "top_frame d \<noteq> Inl Assertion_Failed"
  by (simp add: top_frame_def)

lemma incr_top_depth_not_assert: "incr_top_depth d \<noteq> Inl Assertion_Failed"
  using top_frame_not_assert [of d]
  by (auto simp: incr_top_depth_def split: sum.splits)

lemma push_delegate_not_assert: "push_delegate hm d hnd u \<noteq> Inl Assertion_Failed"
  using top_frame_not_assert [of "d\<lparr>top_ptr := top_ptr d + 1\<rparr>"] handlerset_at_not_assert [of hm "set_ptr hnd"]
  by (auto simp: push_delegate_def Let_def split: sum.splits)

lemma startsubmsg_unfold:
  assumes fr: "top_frame d = Inr fr"
      and hs: "handlerset_at hm (set_ptr (handlers fr)) = Inr hs"
      and cb: "startsubmsg hs (closure (handlers fr)) f \<lparr>set_ptr = NULL, closure = NULL\<rparr> u
                 = (ret, hnd, u1)"
  shows "upb_dispatch_startsubmsg hm d f u =
           (if (ret = UPB_DELEGATE) \<noteq> (\<not> upb_handlers_isempty hnd) then Inl Assertion_Failed
            else
              (case (if ret = UPB_DELEGATE
                     then (case push_delegate hm d hnd u1 of Inl e \<Rightarrow> Inl e
                           | Inr (d1, u2) \<Rightarrow> Inr (UPB_CONTINUE, d1, u2))
                     else Inr (ret, d, u1)) of
                 Inl e \<Rightarrow> Inl e
               | Inr (ret1, d1, u2) \<Rightarrow>
                   (case incr_top_depth d1 of Inl e \<Rightarrow> Inl e
                    | Inr d2 \<Rightarrow> Inr (ret1, d2, u2))))"
  by (simp only: upb_dispatch_startsubmsg_def h0_empty Let_def fr hs cb sum.case prod.case)

lemma startsubmsg_assert_iff:
  assumes fr: "top_frame d = Inr fr"
      and hs: "handlerset_at hm (set_ptr (handlers fr)) = Inr hs"
      and cb: "startsubmsg hs (closure (handlers fr)) f \<lparr>set_ptr = NULL, closure = NULL\<rparr> u
                 = (ret, hnd, u1)"
  shows "upb_dispatch_startsubmsg hm d f u = Inl Assertion_Failed
           \<longleftrightarrow> (ret = UPB_DELEGATE) = upb_handlers_isempty hnd"
proof (cases "(ret = UPB_DELEGATE) = upb_handlers_isempty hnd")
  case True
  then show ?thesis
    by (simp add: startsubmsg_unfold [OF fr hs cb])
next
  case False
  then have ok: "\<not> ((ret = UPB_DELEGATE) \<noteq> (\<not> upb_handlers_isempty hnd))" by auto
  have "upb_dispatch_startsubmsg hm d f u \<noteq> Inl Assertion_Failed"
  proof (cases "ret = UPB_DELEGATE")
    case True
    show ?thesis
    proof (cases "push_delegate hm d hnd u1")
      case (Inl e)
      with push_delegate_not_assert [of hm d hnd u1] have "e \<noteq> Assertion_Failed" by auto
      with Inl ok True show ?thesis by (simp add: startsubmsg_unfold [OF fr hs cb])
    next
      case (Inr r)
      obtain d1 u2 where r: "r = (d1, u2)" by (cases r)
      show ?thesis
        using Inr r ok True incr_top_depth_not_assert [of d1]
        by (auto simp: startsubmsg_unfold [OF fr hs cb] split: sum.splits)
    qed
  next
    case nd: False
    show ?thesis
      using ok nd incr_top_depth_not_assert [of d]
      by (auto simp: startsubmsg_unfold [OF fr hs cb] split: sum.splits)
  qed
  with False show ?thesis by simp
qed

lemma startsubmsg_assert_needs_callback:
  assumes "upb_dispatch_startsubmsg hm d f u = Inl Assertion_Failed"
  shows "\<exists>fr hs. top_frame d = Inr fr \<and> handlerset_at hm (set_ptr (handlers fr)) = Inr hs"
proof (cases "top_frame d")
  case (Inl e)
  with assms top_frame_not_assert [of d] show ?thesis
    by (simp add: upb_dispatch_startsubmsg_def Let_def)
next
  case fr: (Inr fr)
  show ?thesis
  proof (cases "handlerset_at hm (set_ptr (handlers fr))")
    case (Inl e)
    with assms fr handlerset_at_not_assert [of hm "set_ptr (handlers fr)"] show ?thesis
      by (simp add: upb_dispatch_startsubmsg_def Let_def)
  next
    case (Inr hs)
    with fr show ?thesis by simp
  qed
qed

lemma push_delegate_Inr:
  assumes "0 \<le> top_ptr d" "top_ptr d + 1 < int (length (stack d))"
      and "handlerset_at hm (set_ptr hnd) = Inr C"
  shows "push_delegate hm d hnd u
           = Inr (set_top_frame (d\<lparr>top_ptr := top_ptr d + 1\<rparr>) \<lparr>handlers = hnd, depth = 0\<rparr>,
                  startmsg C (closure hnd) u)"
  using assms by (simp add: push_delegate_def Let_def top_frame_def frame_overwrite)

lemma push_delegate_Inl:
  assumes "0 \<le> top_ptr d" "top_ptr d + 1 < int (length (stack d))"
      and "handlerset_at hm (set_ptr hnd) = Inl e"
  shows "push_delegate hm d hnd u = Inl e"
  using assms by (simp add: push_delegate_def Let_def top_frame_def)

lemma incr_after_push:
  assumes "0 \<le> top_ptr d" "top_ptr d + 1 < int (length (stack d))"
  shows "incr_top_depth (set_top_frame (d\<lparr>top_ptr := top_ptr d + 1\<rparr>) \<lparr>handlers = hnd, depth = 0\<rparr>)
           = Inr (set_top_frame (d\<lparr>top_ptr := top_ptr d + 1\<rparr>) \<lparr>handlers = hnd, depth = 1\<rparr>)"
proof -
  have "top_frame (set_top_frame (d\<lparr>top_ptr := top_ptr d + 1\<rparr>) \<lparr>handlers = hnd, depth = 0\<rparr>)
          = Inr \<lparr>handlers = hnd, depth = 0\<rparr>"
    using assms by (intro top_frame_set_top_frame) simp_all
  then show ?thesis
    by (simp add: incr_top_depth_def INT_MAX_def set_top_frame_twice)
qed

section \<open>Delegation of a submessage\<close>

text \<open>
  C1. Let the handler set \<open>P\<close> of the current top frame answer start-submsg with
  \<^verbatim>\<open>UPB_DELEGATE\<close> and the non-empty handlers \<open>hnd\<close>, whose set is \<open>C\<close>, and let the
  array have room for one more frame. Then \<^verbatim>\<open>upb_dispatch_startsubmsg\<close> calls
  \<open>P\<close>'s startsubmsg, pushes a frame holding \<open>hnd\<close> (depth 1 after the increment), calls
  \<open>C\<close>'s startmsg and returns \<^verbatim>\<open>UPB_CONTINUE\<close>; a value event is then delivered to \<open>C\<close>;
  and \<^verbatim>\<open>upb_dispatch_endsubmsg\<close> calls \<open>C\<close>'s endmsg, pops the frame and calls \<open>P\<close>'s
  endsubmsg. The user state is threaded through the callbacks in exactly this order:
  parent.startsubmsg, child.startmsg, child.value, child.endmsg, parent.endsubmsg, and the
  parent frame \<open>fr\<close> is the top frame again at the end.
\<close>

theorem delegated_submsg_callback_order:
  assumes fr: "top_frame d = Inr fr"
      and room: "top_ptr d + 1 < int (length (stack d))"
      and hs: "handlerset_at hm (set_ptr (handlers fr)) = Inr P"
      and cb: "startsubmsg P (closure (handlers fr)) f \<lparr>set_ptr = NULL, closure = NULL\<rparr> u
                 = (UPB_DELEGATE, hnd, u1)"
      and ne: "\<not> upb_handlers_isempty hnd"
      and hs2: "handlerset_at hm (set_ptr hnd) = Inr C"
      and v: "value_h C (closure hnd) g val (startmsg C (closure hnd) u1) = (rv, u3)"
      and e: "endsubmsg P (closure (handlers fr)) (endmsg C (closure hnd) u3) = (re, u5)"
  shows "upb_dispatch_startsubmsg hm d f u
           = Inr (UPB_CONTINUE,
                  set_top_frame (d\<lparr>top_ptr := top_ptr d + 1\<rparr>) \<lparr>handlers = hnd, depth = 1\<rparr>,
                  startmsg C (closure hnd) u1)
       \<and> upb_dispatch_value hm
            (set_top_frame (d\<lparr>top_ptr := top_ptr d + 1\<rparr>) \<lparr>handlers = hnd, depth = 1\<rparr>)
            g val (startmsg C (closure hnd) u1)
           = Inr (rv, set_top_frame (d\<lparr>top_ptr := top_ptr d + 1\<rparr>) \<lparr>handlers = hnd, depth = 1\<rparr>, u3)
       \<and> upb_dispatch_endsubmsg hm
            (set_top_frame (d\<lparr>top_ptr := top_ptr d + 1\<rparr>) \<lparr>handlers = hnd, depth = 1\<rparr>) u3
           = Inr (re,
                  (set_top_frame (d\<lparr>top_ptr := top_ptr d + 1\<rparr>) \<lparr>handlers = hnd, depth = 0\<rparr>)
                    \<lparr>top_ptr := top_ptr d\<rparr>,
                  u5)
       \<and> top_frame ((set_top_frame (d\<lparr>top_ptr := top_ptr d + 1\<rparr>) \<lparr>handlers = hnd, depth = 0\<rparr>)
                    \<lparr>top_ptr := top_ptr d\<rparr>) = Inr fr"
proof -
  let ?dp = "d\<lparr>top_ptr := top_ptr d + 1\<rparr>"
  let ?d1 = "set_top_frame ?dp \<lparr>handlers = hnd, depth = 1\<rparr>"
  let ?d0 = "set_top_frame ?dp \<lparr>handlers = hnd, depth = 0\<rparr>"
  from fr have rng: "0 \<le> top_ptr d" "top_ptr d < int (length (stack d))" "fr = stack d ! nat (top_ptr d)"
    by (simp_all add: top_frame_Inr)
  have rngp: "0 \<le> top_ptr ?dp" "top_ptr ?dp < int (length (stack ?dp))"
    using rng room by simp_all
  have tfp: "top_frame ?dp = Inr (stack d ! nat (top_ptr d + 1))"
    using rng room by (simp add: top_frame_def)
  have push: "push_delegate hm d hnd u1 = Inr (?d0, startmsg C (closure hnd) u1)"
    using tfp hs2 by (simp add: push_delegate_def Let_def frame_overwrite)
  have tf0: "top_frame ?d0 = Inr \<lparr>handlers = hnd, depth = 0\<rparr>"
    using rngp by (rule top_frame_set_top_frame)
  have inc: "incr_top_depth ?d0 = Inr ?d1"
    using tf0 by (simp add: incr_top_depth_def INT_MAX_def set_top_frame_twice)
  have start: "upb_dispatch_startsubmsg hm d f u = Inr (UPB_CONTINUE, ?d1, startmsg C (closure hnd) u1)"
    using ne push inc by (simp add: startsubmsg_unfold [OF fr hs cb])
  have tf1: "top_frame ?d1 = Inr \<lparr>handlers = hnd, depth = 1\<rparr>"
    using rngp by (rule top_frame_set_top_frame)
  have val: "upb_dispatch_value hm ?d1 g val (startmsg C (closure hnd) u1) = Inr (rv, ?d1, u3)"
    using tf1 hs2 v by (simp add: upb_dispatch_value_def)
  have dec: "set_top_frame ?d1 (\<lparr>handlers = hnd, depth = 1\<rparr>\<lparr>depth := 1 - 1\<rparr>) = ?d0"
    by (simp add: set_top_frame_twice)
  have pop: "top_ptr ?d0 - 1 = top_ptr d"
    by (simp add: set_top_frame_def)
  have tfe: "top_frame (?d0\<lparr>top_ptr := top_ptr d\<rparr>) = Inr fr"
    using rng room by (simp add: top_frame_def set_top_frame_def)
  have fin: "upb_dispatch_endsubmsg hm ?d1 u3 = Inr (re, ?d0\<lparr>top_ptr := top_ptr d\<rparr>, u5)"
    unfolding upb_dispatch_endsubmsg_def tf1
    using hs2 hs e tfe dec pop by (simp add: INT_MIN_def Let_def)
  from start val fin tfe show ?thesis by simp
qed

text \<open>
  The instance of scenario 4 of the specification: \<open>S1\<close> with closure 10 delegates to
  \<open>S2\<close> with closure 20, and the trace is the expected call order.
\<close>

theorem delegated_submsg_callback_order_witness:
  "upb_dispatch_startsubmsg example_memory (example_dispatcher 1 10) 7 []
     = Inr (UPB_CONTINUE,
            set_top_frame ((example_dispatcher 1 10)\<lparr>top_ptr := 1\<rparr>)
              \<lparr>handlers = \<lparr>set_ptr = 2, closure = 20\<rparr>, depth = 1\<rparr>,
            [(''S1.startsubmsg'', 10), (''S2.startmsg'', 20)])
   \<and> upb_dispatch_value example_memory
        (set_top_frame ((example_dispatcher 1 10)\<lparr>top_ptr := 1\<rparr>)
              \<lparr>handlers = \<lparr>set_ptr = 2, closure = 20\<rparr>, depth = 1\<rparr>)
        8 42 [(''S1.startsubmsg'', 10), (''S2.startmsg'', 20)]
     = Inr (UPB_CONTINUE,
            set_top_frame ((example_dispatcher 1 10)\<lparr>top_ptr := 1\<rparr>)
              \<lparr>handlers = \<lparr>set_ptr = 2, closure = 20\<rparr>, depth = 1\<rparr>,
            [(''S1.startsubmsg'', 10), (''S2.startmsg'', 20), (''S2.value'', 20)])
   \<and> upb_dispatch_endsubmsg example_memory
        (set_top_frame ((example_dispatcher 1 10)\<lparr>top_ptr := 1\<rparr>)
              \<lparr>handlers = \<lparr>set_ptr = 2, closure = 20\<rparr>, depth = 1\<rparr>)
        [(''S1.startsubmsg'', 10), (''S2.startmsg'', 20), (''S2.value'', 20)]
     = Inr (UPB_CONTINUE,
            (set_top_frame ((example_dispatcher 1 10)\<lparr>top_ptr := 1\<rparr>)
              \<lparr>handlers = \<lparr>set_ptr = 2, closure = 20\<rparr>, depth = 0\<rparr>)\<lparr>top_ptr := 0\<rparr>,
            [(''S1.startsubmsg'', 10), (''S2.startmsg'', 20), (''S2.value'', 20),
             (''S2.endmsg'', 20), (''S1.endsubmsg'', 10)])"
proof -
  let ?d = "example_dispatcher 1 10"
  let ?fr = "\<lparr>handlers = \<lparr>set_ptr = 1, closure = 10\<rparr>, depth = 1\<rparr>"
  let ?hnd = "\<lparr>set_ptr = 2, closure = 20\<rparr>"
  have t0: "top_ptr ?d = 0"
    by (simp add: example_dispatcher_def upb_dispatcher_reset_def set_top_frame_def Let_def)
  have fr: "top_frame ?d = Inr ?fr"
    by (simp add: example_dispatcher_def upb_dispatcher_reset_def upb_dispatcher_init_def
        blank_dispatcher_def set_top_frame_def top_frame_def Let_def)
  have room: "top_ptr ?d + 1 < int (length (stack ?d))"
    by (simp add: example_dispatcher_def upb_dispatcher_reset_def upb_dispatcher_init_def
        blank_dispatcher_def set_top_frame_def Let_def)
  have hs: "handlerset_at example_memory (set_ptr (handlers ?fr)) = Inr S1"
    by (simp add: handlerset_at_def example_memory_def)
  have cb: "startsubmsg S1 (closure (handlers ?fr)) 7 \<lparr>set_ptr = NULL, closure = NULL\<rparr> []
              = (UPB_DELEGATE, ?hnd, [(''S1.startsubmsg'', 10)])"
    by (simp add: S1_def tracing_set_def upb_set_handler_closure_def upb_register_handlerset_def)
  have ne: "\<not> upb_handlers_isempty ?hnd"
    by (simp add: upb_handlers_isempty_def)
  have hs2: "handlerset_at example_memory (set_ptr ?hnd) = Inr S2"
    by (simp add: handlerset_at_def example_memory_def)
  have v: "value_h S2 (closure ?hnd) 8 42 (startmsg S2 (closure ?hnd) [(''S1.startsubmsg'', 10)])
             = (UPB_CONTINUE, [(''S1.startsubmsg'', 10), (''S2.startmsg'', 20), (''S2.value'', 20)])"
    by (simp add: S2_def tracing_set_def)
  have e: "endsubmsg S1 (closure (handlers ?fr))
             (endmsg S2 (closure ?hnd) [(''S1.startsubmsg'', 10), (''S2.startmsg'', 20), (''S2.value'', 20)])
             = (UPB_CONTINUE, [(''S1.startsubmsg'', 10), (''S2.startmsg'', 20), (''S2.value'', 20),
                 (''S2.endmsg'', 20), (''S1.endsubmsg'', 10)])"
    by (simp add: S1_def S2_def tracing_set_def)
  have sm: "startmsg S2 (closure ?hnd) [(''S1.startsubmsg'', 10)]
              = [(''S1.startsubmsg'', 10), (''S2.startmsg'', 20)]"
    by (simp add: S2_def tracing_set_def)
  from delegated_submsg_callback_order [OF fr room hs cb ne hs2 v e]
  show ?thesis by (simp only: t0 sm) simp
qed

section \<open>The frame pointer stays inside the array\<close>

lemma live_set_top_frame:
  assumes "0 \<le> top_ptr d" "top_ptr d < int (length (stack d))"
  shows "live (set_top_frame d fr) = take (nat (top_ptr d)) (stack d) @ [fr]"
proof -
  have "nat (top_ptr d) < length (stack d)" using assms by simp
  then show ?thesis
    by (simp add: live_def set_top_frame_def take_Suc_conv_app_nth)
qed

lemma live_split:
  assumes "top_frame d = Inr fr"
  shows "live d = take (nat (top_ptr d)) (stack d) @ [fr]"
proof -
  from assms have "0 \<le> top_ptr d" "top_ptr d < int (length (stack d))"
    and "fr = stack d ! nat (top_ptr d)"
    by (simp_all add: top_frame_Inr)
  then have "nat (top_ptr d) < length (stack d)" "fr = stack d ! nat (top_ptr d)"
    by (simp_all add: nat_less_iff)
  then show ?thesis
    by (simp add: live_def take_Suc_conv_app_nth)
qed

lemma live_push:
  assumes "0 \<le> top_ptr d" "top_ptr d + 1 < int (length (stack d))"
  shows "live (set_top_frame (d\<lparr>top_ptr := top_ptr d + 1\<rparr>) fr) = live d @ [fr]"
proof -
  have n: "nat (top_ptr d + 1) = Suc (nat (top_ptr d))" using assms by simp
  have "Suc (nat (top_ptr d)) < length (stack d)" using assms by simp
  then show ?thesis
    by (simp add: live_def set_top_frame_def n take_Suc_conv_app_nth)
qed

lemma live_pop:
  assumes "1 \<le> top_ptr d" "top_ptr d < int (length (stack d))"
  shows "live ((set_top_frame d fr)\<lparr>top_ptr := top_ptr d - 1\<rparr>) = take (nat (top_ptr d)) (stack d)"
proof -
  have n: "Suc (nat (top_ptr d - 1)) = nat (top_ptr d)" using assms by simp
  show ?thesis
    by (simp add: live_def set_top_frame_def n)
qed

lemma frames_ok_top_le:
  assumes "frames_ok d k"
  shows "top_ptr d \<le> int k"
proof -
  have "\<And>xs :: upb_dispatcher_frame list. (\<forall>fr \<in> set xs. 1 \<le> depth fr) \<Longrightarrow> int (length xs) \<le> sum_list (map depth xs)"
  proof -
    fix xs :: "upb_dispatcher_frame list"
    show "(\<forall>fr \<in> set xs. 1 \<le> depth fr) \<Longrightarrow> int (length xs) \<le> sum_list (map depth xs)"
      by (induction xs) auto
  qed
  with assms have "int (length (live d)) \<le> int k + 1"
    by (fastforce simp: frames_ok_def)
  moreover have "nat (top_ptr d) < length (stack d)"
    using assms by (simp add: frames_ok_def nat_less_iff)
  then have "length (live d) = nat (top_ptr d) + 1"
    by (simp add: live_def)
  ultimately show ?thesis using assms by (simp add: frames_ok_def)
qed

lemma frames_ok_top_frame:
  assumes "frames_ok d k"
  obtains fr where "top_frame d = Inr fr" "1 \<le> depth fr" "depth fr \<le> int k + 1"
    "sum_list (map depth (take (nat (top_ptr d)) (stack d))) = int k + 1 - depth fr"
    "\<forall>x \<in> set (take (nat (top_ptr d)) (stack d)). 1 \<le> depth x"
proof -
  from assms have rng: "0 \<le> top_ptr d" "top_ptr d < int (length (stack d))"
    by (simp_all add: frames_ok_def)
  define fr where "fr = stack d ! nat (top_ptr d)"
  have tf: "top_frame d = Inr fr" using rng by (simp add: top_frame_def fr_def)
  have lv: "live d = take (nat (top_ptr d)) (stack d) @ [fr]" by (rule live_split [OF tf])
  have all: "\<forall>x \<in> set (take (nat (top_ptr d)) (stack d)). 1 \<le> depth x" and d1: "1 \<le> depth fr"
    using assms by (simp_all add: frames_ok_def lv)
  have s: "sum_list (map depth (take (nat (top_ptr d)) (stack d))) = int k + 1 - depth fr"
    using assms by (simp add: frames_ok_def lv)
  have "0 \<le> sum_list (map depth (take (nat (top_ptr d)) (stack d)))"
    using all by (intro sum_list_nonneg) auto
  with s have le: "depth fr \<le> int k + 1" by simp
  from tf d1 le s all show ?thesis by (rule that)
qed

lemma handlerset_at_Inl: "handlerset_at hm p = Inl e \<Longrightarrow> handler_fault e"
  by (auto simp: handlerset_at_def handler_fault_def split: if_splits option.splits)

lemma startsubmsg_step:
  assumes ok: "frames_ok d k"
      and cap: "k + 1 < length (stack d)"
      and imax: "int (length (stack d)) \<le> INT_MAX"
  shows "step_ok d (k + 1) (drop_flow (upb_dispatch_startsubmsg hm d f u))"
proof -
  from ok obtain fr where fr: "top_frame d = Inr fr" and d1: "1 \<le> depth fr"
    and dk: "depth fr \<le> int k + 1"
    and s: "sum_list (map depth (take (nat (top_ptr d)) (stack d))) = int k + 1 - depth fr"
    and all: "\<forall>x \<in> set (take (nat (top_ptr d)) (stack d)). 1 \<le> depth x"
    by (rule frames_ok_top_frame)
  from fr have rng: "0 \<le> top_ptr d" "top_ptr d < int (length (stack d))"
    by (simp_all add: top_frame_Inr)
  have tk: "top_ptr d \<le> int k" by (rule frames_ok_top_le [OF ok])
  with cap have room: "top_ptr d + 1 < int (length (stack d))" by simp
  show ?thesis
  proof (cases "handlerset_at hm (set_ptr (handlers fr))")
    case (Inl e)
    then have "upb_dispatch_startsubmsg hm d f u = Inl e"
      using fr by (simp add: upb_dispatch_startsubmsg_def Let_def)
    with handlerset_at_Inl [OF Inl] show ?thesis
      by (simp add: step_ok_def drop_flow_def)
  next
    case hs: (Inr hs)
    obtain ret hnd u1 where
      cb: "startsubmsg hs (closure (handlers fr)) f \<lparr>set_ptr = NULL, closure = NULL\<rparr> u = (ret, hnd, u1)"
      by (cases "startsubmsg hs (closure (handlers fr)) f \<lparr>set_ptr = NULL, closure = NULL\<rparr> u") auto
    note unf = startsubmsg_unfold [OF fr hs cb]
    show ?thesis
    proof (cases "(ret = UPB_DELEGATE) \<noteq> (\<not> upb_handlers_isempty hnd)")
      case True
      then show ?thesis
        by (simp add: unf step_ok_def drop_flow_def handler_fault_def)
    next
      case good: False
      show ?thesis
      proof (cases "ret = UPB_DELEGATE")
        case del: True
        show ?thesis
        proof (cases "handlerset_at hm (set_ptr hnd)")
          case (Inl e)
          from push_delegate_Inl [OF rng(1) room Inl]
          have "upb_dispatch_startsubmsg hm d f u = Inl e"
            using good del by (simp add: unf)
          with handlerset_at_Inl [OF Inl] show ?thesis
            by (simp add: step_ok_def drop_flow_def)
        next
          case (Inr C)
          let ?d1 = "set_top_frame (d\<lparr>top_ptr := top_ptr d + 1\<rparr>) \<lparr>handlers = hnd, depth = 1\<rparr>"
          have res: "upb_dispatch_startsubmsg hm d f u
                       = Inr (UPB_CONTINUE, ?d1, startmsg C (closure hnd) u1)"
            using good del push_delegate_Inr [OF rng(1) room Inr, of u1]
              incr_after_push [OF rng(1) room, of hnd]
            by (simp add: unf)
          have lv: "live ?d1 = live d @ [\<lparr>handlers = hnd, depth = 1\<rparr>]"
            by (rule live_push [OF rng(1) room])
          have "frames_ok ?d1 (k + 1)"
            using ok rng room by (simp add: frames_ok_def lv)
          then show ?thesis
            by (simp add: res step_ok_def drop_flow_def)
        qed
      next
        case nd: False
        let ?d1 = "set_top_frame d (fr\<lparr>depth := depth fr + 1\<rparr>)"
        have "depth fr \<noteq> INT_MAX" using dk cap imax by simp
        then have inc: "incr_top_depth d = Inr ?d1"
          using fr by (simp add: incr_top_depth_def)
        have res: "upb_dispatch_startsubmsg hm d f u = Inr (ret, ?d1, u1)"
          using good nd inc by (simp add: unf)
        have lv: "live ?d1 = take (nat (top_ptr d)) (stack d) @ [fr\<lparr>depth := depth fr + 1\<rparr>]"
          by (rule live_set_top_frame [OF rng])
        have "frames_ok ?d1 (k + 1)"
          using rng d1 s all by (simp add: frames_ok_def lv)
        then show ?thesis
          by (simp add: res step_ok_def drop_flow_def)
      qed
    qed
  qed
qed

lemma endsubmsg_step:
  assumes ok: "frames_ok d k"
      and pos: "0 < k"
  shows "step_ok d (k - 1) (drop_flow (upb_dispatch_endsubmsg hm d u))"
proof -
  from ok obtain fr where fr: "top_frame d = Inr fr" and d1: "1 \<le> depth fr"
    and dk: "depth fr \<le> int k + 1"
    and s: "sum_list (map depth (take (nat (top_ptr d)) (stack d))) = int k + 1 - depth fr"
    and all: "\<forall>x \<in> set (take (nat (top_ptr d)) (stack d)). 1 \<le> depth x"
    by (rule frames_ok_top_frame)
  from fr have rng: "0 \<le> top_ptr d" "top_ptr d < int (length (stack d))"
    by (simp_all add: top_frame_Inr)
  have nmin: "depth fr \<noteq> INT_MIN" using d1 by (simp add: INT_MIN_def)
  have k1: "int (k - 1) + 1 = int k" using pos by simp
  let ?d1 = "set_top_frame d (fr\<lparr>depth := depth fr - 1\<rparr>)"
  show ?thesis
  proof (cases "depth fr - 1 = 0")
    case pop: True
    then have one: "depth fr = 1" by simp
    have t1: "1 \<le> top_ptr d"
    proof (rule ccontr)
      assume "\<not> 1 \<le> top_ptr d"
      with rng have "nat (top_ptr d) = 0" by simp
      with s one pos show False by simp
    qed
    let ?d2 = "?d1\<lparr>top_ptr := top_ptr d - 1\<rparr>"
    have lv: "live ?d2 = take (nat (top_ptr d)) (stack d)"
      by (rule live_pop [OF t1 rng(2)])
    have ok2: "frames_ok ?d2 (k - 1)"
      unfolding frames_ok_def lv
      using t1 rng all s one k1 by simp
    show ?thesis
    proof (cases "handlerset_at hm (set_ptr (handlers fr))")
      case (Inl e)
      then have "upb_dispatch_endsubmsg hm d u = Inl e"
        using fr nmin pop by (simp add: upb_dispatch_endsubmsg_def Let_def)
      with handlerset_at_Inl [OF Inl] show ?thesis
        by (simp add: step_ok_def drop_flow_def)
    next
      case hs: (Inr hs)
      from ok2 obtain fr2 where fr2: "top_frame ?d2 = Inr fr2"
        by (rule frames_ok_top_frame)
      show ?thesis
      proof (cases "handlerset_at hm (set_ptr (handlers fr2))")
        case (Inl e)
        then have "upb_dispatch_endsubmsg hm d u = Inl e"
          using fr nmin pop hs fr2 by (simp add: upb_dispatch_endsubmsg_def Let_def)
        with handlerset_at_Inl [OF Inl] show ?thesis
          by (simp add: step_ok_def drop_flow_def)
      next
        case hs2: (Inr hs2)
        obtain ret u2 where e: "endsubmsg hs2 (closure (handlers fr2)) (endmsg hs (closure (handlers fr)) u) = (ret, u2)"
          by (cases "endsubmsg hs2 (closure (handlers fr2)) (endmsg hs (closure (handlers fr)) u)") auto
        have "upb_dispatch_endsubmsg hm d u = Inr (ret, ?d2, u2)"
          using fr nmin pop hs fr2 hs2 e by (simp add: upb_dispatch_endsubmsg_def Let_def)
        with ok2 show ?thesis
          by (simp add: step_ok_def drop_flow_def)
      qed
    qed
  next
    case keep: False
    have tf1: "top_frame ?d1 = Inr (fr\<lparr>depth := depth fr - 1\<rparr>)"
      using rng by (rule top_frame_set_top_frame)
    have lv: "live ?d1 = take (nat (top_ptr d)) (stack d) @ [fr\<lparr>depth := depth fr - 1\<rparr>]"
      by (rule live_set_top_frame [OF rng])
    have ok1: "frames_ok ?d1 (k - 1)"
      unfolding frames_ok_def lv
      using rng d1 keep s all k1 by simp
    show ?thesis
    proof (cases "handlerset_at hm (set_ptr (handlers fr))")
      case (Inl e)
      then have "upb_dispatch_endsubmsg hm d u = Inl e"
        using fr nmin keep tf1 by (simp add: upb_dispatch_endsubmsg_def Let_def)
      with handlerset_at_Inl [OF Inl] show ?thesis
        by (simp add: step_ok_def drop_flow_def)
    next
      case hs: (Inr hs)
      obtain ret u2 where e: "endsubmsg hs (closure (handlers fr)) u = (ret, u2)"
        by (cases "endsubmsg hs (closure (handlers fr)) u") auto
      have "upb_dispatch_endsubmsg hm d u = Inr (ret, ?d1, u2)"
        using fr nmin keep tf1 hs e by (simp add: upb_dispatch_endsubmsg_def Let_def)
      with ok1 show ?thesis
        by (simp add: step_ok_def drop_flow_def)
    qed
  qed
qed

lemma startmsg_step:
  assumes ok: "frames_ok d k"
  shows "step_ok d k (upb_dispatch_startmsg hm d u)"
proof -
  from ok obtain fr where fr: "top_frame d = Inr fr" by (rule frames_ok_top_frame)
  show ?thesis
    using ok fr handlerset_at_Inl [of hm "set_ptr (handlers fr)"]
    by (auto simp: upb_dispatch_startmsg_def step_ok_def handler_fault_def split: sum.splits)
qed

lemma endmsg_step:
  assumes ok: "frames_ok d k"
  shows "step_ok d k (upb_dispatch_endmsg hm d u)"
proof -
  from ok obtain fr where fr: "top_frame d = Inr fr" by (rule frames_ok_top_frame)
  show ?thesis
    using ok fr handlerset_at_Inl [of hm "set_ptr (handlers fr)"]
    by (auto simp: upb_dispatch_endmsg_def step_ok_def handler_fault_def split: sum.splits)
qed

lemma value_step:
  assumes ok: "frames_ok d k"
  shows "step_ok d k (drop_flow (upb_dispatch_value hm d f v u))"
proof -
  from ok obtain fr where fr: "top_frame d = Inr fr" by (rule frames_ok_top_frame)
  show ?thesis
    using ok fr handlerset_at_Inl [of hm "set_ptr (handlers fr)"]
    by (auto simp: upb_dispatch_value_def step_ok_def drop_flow_def split: sum.splits prod.splits)
qed

lemma unknownval_step:
  assumes ok: "frames_ok d k"
  shows "step_ok d k (drop_flow (upb_dispatch_unknownval hm d n v u))"
proof -
  from ok obtain fr where fr: "top_frame d = Inr fr" by (rule frames_ok_top_frame)
  show ?thesis
    using ok fr handlerset_at_Inl [of hm "set_ptr (handlers fr)"]
    by (auto simp: upb_dispatch_unknownval_def step_ok_def drop_flow_def split: sum.splits prod.splits)
qed

lemma dispatch_step:
  assumes ok: "frames_ok d k"
      and nest: "well_nested (length (stack d)) k (ev # evs)"
      and imax: "int (length (stack d)) \<le> INT_MAX"
  shows "\<exists>k'. step_ok d k' (upb_dispatch hm ev d u) \<and> well_nested (length (stack d)) k' evs"
proof (cases ev)
  case Startmsg
  with nest startmsg_step [OF ok, of hm u] show ?thesis by auto
next
  case Endmsg
  with nest endmsg_step [OF ok, of hm u] show ?thesis by auto
next
  case (Startsubmsg f)
  with nest have "k + 1 < length (stack d)" "well_nested (length (stack d)) (k + 1) evs"
    by simp_all
  with startsubmsg_step [OF ok this(1) imax, of hm f u] Startsubmsg show ?thesis by auto
next
  case Endsubmsg
  with nest have "0 < k" "well_nested (length (stack d)) (k - 1) evs"
    by simp_all
  with endsubmsg_step [OF ok this(1), of hm u] Endsubmsg show ?thesis by auto
next
  case (Value f v)
  with nest value_step [OF ok, of hm f v u] show ?thesis by auto
next
  case (Unknownval n v)
  with nest unknownval_step [OF ok, of hm n v u] show ?thesis by auto
qed

lemma run_frames_ok:
  assumes "frames_ok d k"
      and "well_nested (length (stack d)) k evs"
      and "int (length (stack d)) \<le> INT_MAX"
  shows "case run hm evs d u of
           Inl e \<Rightarrow> handler_fault e
         | Inr (d', u') \<Rightarrow>
             (\<exists>k'. frames_ok d' k') \<and> length (stack d') = length (stack d) \<and> limit d' = limit d"
  using assms
proof (induction evs arbitrary: d u k)
  case Nil
  then show ?case by auto
next
  case (Cons ev evs)
  from dispatch_step [OF Cons.prems, of hm u] obtain k' where
    st: "step_ok d k' (upb_dispatch hm ev d u)" and wn: "well_nested (length (stack d)) k' evs"
    by blast
  show ?case
  proof (cases "upb_dispatch hm ev d u")
    case (Inl e)
    with st show ?thesis by (simp add: step_ok_def)
  next
    case (Inr r)
    obtain d1 u1 where r: "r = (d1, u1)" by (cases r)
    from st Inr r have ok1: "frames_ok d1 k'" and len: "length (stack d1) = length (stack d)"
      and lim: "limit d1 = limit d"
      by (simp_all add: step_ok_def)
    have wn1: "well_nested (length (stack d1)) k' evs"
      using wn len by simp
    have imax1: "int (length (stack d1)) \<le> INT_MAX"
      using Cons.prems(3) len by simp
    from Cons.IH [OF ok1 wn1 imax1, of u1]
    have "case run hm evs d1 u1 of
           Inl e \<Rightarrow> handler_fault e
         | Inr (d', u') \<Rightarrow>
             (\<exists>k'. frames_ok d' k') \<and> length (stack d') = length (stack d) \<and> limit d' = limit d"
      by (auto simp: len lim split: sum.splits)
    with Inr r show ?thesis by simp
  qed
qed

lemma frames_ok_reset:
  assumes "stack d \<noteq> []"
  shows "frames_ok (upb_dispatcher_reset d h) 0"
proof -
  have "live (upb_dispatcher_reset d h) = [\<lparr>handlers = h, depth = 1\<rparr>]"
    using assms by (cases "stack d") (simp_all add: live_def upb_dispatcher_reset_def set_top_frame_def Let_def)
  with assms show ?thesis
    by (simp add: frames_ok_def upb_dispatcher_reset_def set_top_frame_def Let_def)
qed

text \<open>
  C2, as amended. After \<^verbatim>\<open>upb_dispatcher_init\<close> and \<^verbatim>\<open>upb_dispatcher_reset\<close>, for every
  sequence of dispatch operations that is well nested below the capacity of the stack
  (no end-submsg without an open submessage, fewer than \<^verbatim>\<open>UPB_MAX_NESTING\<close> submessages
  open at a time), on a stack of at least one and at most \<^verbatim>\<open>INT_MAX\<close> frames of at least
  one byte each, the dispatcher never reads or writes a frame outside its array: either
  the sequence runs to its end and the frame pointer satisfies
  \<^verbatim>\<open>stack <= top < stack + UPB_MAX_NESTING <= limit\<close>, or it stops at a fault caused by a
  handler set (a failed assertion, a pointer to no handler set). Every prefix of a
  well-nested sequence is well nested, so this holds at every step.
\<close>

theorem dispatcher_frame_pointer_in_bounds:
  assumes nest: "well_nested (length (stack d)) 0 evs"
      and ne: "stack d \<noteq> []"
      and sz: "0 < frame_bytes"
      and imax: "int (length (stack d)) \<le> INT_MAX"
  shows "case run hm evs (upb_dispatcher_reset (upb_dispatcher_init frame_bytes d) h) u of
           Inl e \<Rightarrow> e = Assertion_Failed \<or> (\<exists>p. e = Invalid_Handlerset p)
         | Inr (d', u') \<Rightarrow>
             length (stack d') = length (stack d)
             \<and> 0 \<le> top_ptr d' \<and> top_ptr d' < int (length (stack d')) \<and> top_ptr d' < limit d'"
proof -
  let ?d0 = "upb_dispatcher_reset (upb_dispatcher_init frame_bytes d) h"
  have len: "length (stack ?d0) = length (stack d)"
    by (simp add: upb_dispatcher_reset_def upb_dispatcher_init_def set_top_frame_def Let_def)
  have lim: "limit ?d0 = int (length (stack d) * frame_bytes)"
    by (simp add: upb_dispatcher_reset_def upb_dispatcher_init_def set_top_frame_def Let_def)
  have "stack (upb_dispatcher_init frame_bytes d) \<noteq> []"
    using ne by (simp add: upb_dispatcher_init_def)
  then have ok: "frames_ok ?d0 0" by (rule frames_ok_reset)
  have inv: "case run hm evs ?d0 u of
           Inl e \<Rightarrow> handler_fault e
         | Inr (d', u') \<Rightarrow>
             (\<exists>k'. frames_ok d' k') \<and> length (stack d') = length (stack ?d0) \<and> limit d' = limit ?d0"
    using nest imax by (intro run_frames_ok [OF ok]) (simp_all add: len)
  have "length (stack d) * 1 \<le> length (stack d) * frame_bytes"
    using sz by (intro mult_le_mono2) simp
  then have cap: "int (length (stack d)) \<le> int (length (stack d) * frame_bytes)"
    by (simp only: of_nat_le_iff mult_1_right)
  show ?thesis
  proof (cases "run hm evs ?d0 u")
    case (Inl e)
    with inv have "handler_fault e" by simp
    then have "e = Assertion_Failed \<or> (\<exists>p. e = Invalid_Handlerset p)"
      by (cases e) (simp_all add: handler_fault_def)
    with Inl show ?thesis by simp
  next
    case (Inr r)
    obtain d' u' where r: "r = (d', u')" by (cases r)
    from inv Inr r obtain k' where ok': "frames_ok d' k'"
      and l': "length (stack d') = length (stack d)" "limit d' = int (length (stack d) * frame_bytes)"
      by (auto simp: len lim)
    from ok' have "0 \<le> top_ptr d'" "top_ptr d' < int (length (stack d'))"
      by (simp_all add: frames_ok_def)
    with l' cap Inr r show ?thesis by simp
  qed
qed

text \<open>A message with one delegated submessage on a dispatcher of four frames.\<close>

theorem dispatcher_frame_pointer_in_bounds_witness:
  "well_nested (length (stack (blank_dispatcher 4))) 0
     [Startmsg, Startsubmsg 7, Value 8 42, Endsubmsg, Endmsg]
   \<and> stack (blank_dispatcher 4) \<noteq> []
   \<and> (0::nat) < 24
   \<and> int (length (stack (blank_dispatcher 4))) \<le> INT_MAX
   \<and> (case run example_memory [Startmsg, Startsubmsg 7, Value 8 42, Endsubmsg, Endmsg]
              (upb_dispatcher_reset (upb_dispatcher_init 24 (blank_dispatcher 4))
                 \<lparr>set_ptr = 1, closure = 10\<rparr>) [] of
         Inl e \<Rightarrow> e = Assertion_Failed \<or> (\<exists>p. e = Invalid_Handlerset p)
       | Inr (d', u') \<Rightarrow>
           length (stack d') = length (stack (blank_dispatcher 4))
           \<and> 0 \<le> top_ptr d' \<and> top_ptr d' < int (length (stack d')) \<and> top_ptr d' < limit d')
   \<and> map_sum id snd
        (run example_memory [Startmsg, Startsubmsg 7, Value 8 42, Endsubmsg, Endmsg]
              (upb_dispatcher_reset (upb_dispatcher_init 24 (blank_dispatcher 4))
                 \<lparr>set_ptr = 1, closure = 10\<rparr>) [])
       = Inr [(''S1.startmsg'', 10), (''S1.startsubmsg'', 10), (''S2.startmsg'', 20),
              (''S2.value'', 20), (''S2.endmsg'', 20), (''S1.endsubmsg'', 10), (''S1.endmsg'', 10)]"
proof -
  have nest: "well_nested (length (stack (blank_dispatcher 4))) 0
     [Startmsg, Startsubmsg 7, Value 8 42, Endsubmsg, Endmsg]"
    by (simp add: blank_dispatcher_def)
  have ne: "stack (blank_dispatcher 4) \<noteq> []"
    by (simp add: blank_dispatcher_def)
  have sz: "(0::nat) < 24" by simp
  have imax: "int (length (stack (blank_dispatcher 4))) \<le> INT_MAX"
    by (simp add: blank_dispatcher_def INT_MAX_def)
  have ev: "map_sum id snd
        (run example_memory [Startmsg, Startsubmsg 7, Value 8 42, Endsubmsg, Endmsg]
              (upb_dispatcher_reset (upb_dispatcher_init 24 (blank_dispatcher 4))
                 \<lparr>set_ptr = 1, closure = 10\<rparr>) [])
       = Inr [(''S1.startmsg'', 10), (''S1.startsubmsg'', 10), (''S2.startmsg'', 20),
              (''S2.value'', 20), (''S2.endmsg'', 20), (''S1.endsubmsg'', 10), (''S1.endmsg'', 10)]"
    by code_simp
  from dispatcher_frame_pointer_in_bounds [OF nest ne sz imax, of example_memory
      "\<lparr>set_ptr = 1, closure = 10\<rparr>" "[]"] nest ne sz imax ev
  show ?thesis by (intro conjI)
qed

text \<open>
  C2, as stated, fails. Directly after reset the base frame has depth 1. An end-submsg
  event at this outermost level decrements the depth to 0, which is the condition for
  popping: \<^verbatim>\<open>upb_dispatch_endsubmsg\<close> calls endmsg, moves \<^verbatim>\<open>d->top\<close> to \<^verbatim>\<open>d->stack - 1\<close> and
  reads the handlers of that frame, one frame before the array.
\<close>

theorem endsubmsg_at_outermost_level_leaves_stack:
  "run example_memory [Endsubmsg]
     (upb_dispatcher_reset (upb_dispatcher_init 24 (blank_dispatcher 4))
        \<lparr>set_ptr = 1, closure = 10\<rparr>) []
   = Inl (Invalid_Frame (- 1))"
  by code_simp

text \<open>
  The bound on the nesting depth is needed as well, and the limit cursor does not supply
  it: on a dispatcher of four frames, the fourth nested delegation moves \<^verbatim>\<open>d->top\<close> to
  frame 4, one past the array, and writes the delegated handlers there, although frame 4
  is far below the limit that \<^verbatim>\<open>upb_dispatcher_init\<close> has set.
\<close>

lemma delegation_beyond_capacity_leaves_stack:
  "run nesting_memory [Startsubmsg 7, Startsubmsg 7, Startsubmsg 7, Startsubmsg 7]
     (upb_dispatcher_reset (upb_dispatcher_init 24 (blank_dispatcher 4))
        \<lparr>set_ptr = 4, closure = 40\<rparr>) []
   = Inl (Invalid_Frame 4)
   \<and> 4 < limit (upb_dispatcher_init 24 (blank_dispatcher 4))"
  by code_simp

section \<open>The capacity set by initialisation\<close>

lemma upb_dispatcher_init_limit:
  "limit (upb_dispatcher_init frame_bytes d) = int (length (stack d)) * int frame_bytes"
  by (simp add: upb_dispatcher_init_def)

text \<open>
  C3. The claim is that after \<^verbatim>\<open>upb_dispatcher_init\<close> the limit cursor is
  \<^verbatim>\<open>stack + UPB_MAX_NESTING\<close>, counted in frames. The code adds the byte size of the array
  to a frame pointer instead, so the limit lies \<^verbatim>\<open>UPB_MAX_NESTING * sizeof(frame)\<close> frames
  after the start of the array: with 64 frames of 24 bytes each the limit is frame 1536,
  not frame 64, and a push that moves \<^verbatim>\<open>d->top\<close> to frame 64, one past the array, is still
  below the limit.
\<close>

theorem upb_dispatcher_init_limit_in_bytes:
  "limit (upb_dispatcher_init 24 (blank_dispatcher 64)) = 1536
   \<and> limit (upb_dispatcher_init 24 (blank_dispatcher 64)) \<noteq> 0 + 64"
  by (simp add: upb_dispatcher_init_def blank_dispatcher_def)

section \<open>A submessage streamed into the same handler set\<close>

text \<open>
  C4. Let the handler set of the current top frame answer start-submsg with an outcome
  other than \<^verbatim>\<open>UPB_DELEGATE\<close> and leave the out-parameter empty, and let the top frame be
  in use (its depth is at least 1, as after reset, and below \<^verbatim>\<open>INT_MAX\<close>). Then
  \<^verbatim>\<open>upb_dispatch_startsubmsg\<close> pushes no frame: the dispatcher is unchanged except that the
  depth of the top frame is one more; it returns the callback's outcome. The matching
  \<^verbatim>\<open>upb_dispatch_endsubmsg\<close> decrements the depth back, does not pop, and calls the
  endsubmsg callback of the same handler set with the same closure: the dispatcher is
  exactly the one before the submessage.
\<close>

theorem nondelegated_submsg_depth:
  assumes fr: "top_frame d = Inr fr"
      and hs: "handlerset_at hm (set_ptr (handlers fr)) = Inr hs"
      and cb: "startsubmsg hs (closure (handlers fr)) f \<lparr>set_ptr = NULL, closure = NULL\<rparr> u
                 = (ret, hnd, u1)"
      and nd: "ret \<noteq> UPB_DELEGATE"
      and em: "upb_handlers_isempty hnd"
      and lo: "1 \<le> depth fr"
      and hi: "depth fr < INT_MAX"
      and es: "endsubmsg hs (closure (handlers fr)) u2 = (ret2, u3)"
  shows "upb_dispatch_startsubmsg hm d f u
           = Inr (ret, set_top_frame d (fr\<lparr>depth := depth fr + 1\<rparr>), u1)
       \<and> upb_dispatch_endsubmsg hm (set_top_frame d (fr\<lparr>depth := depth fr + 1\<rparr>)) u2
           = Inr (ret2, d, u3)"
proof -
  from fr have rng: "0 \<le> top_ptr d" "top_ptr d < int (length (stack d))"
    by (simp_all add: top_frame_Inr)
  have inc: "incr_top_depth d = Inr (set_top_frame d (fr\<lparr>depth := depth fr + 1\<rparr>))"
    using fr hi by (simp add: incr_top_depth_def)
  have start: "upb_dispatch_startsubmsg hm d f u
           = Inr (ret, set_top_frame d (fr\<lparr>depth := depth fr + 1\<rparr>), u1)"
    using fr hs cb nd em inc by (simp add: upb_dispatch_startsubmsg_def h0_empty)
  let ?d1 = "set_top_frame d (fr\<lparr>depth := depth fr + 1\<rparr>)"
  have tf1: "top_frame ?d1 = Inr (fr\<lparr>depth := depth fr + 1\<rparr>)"
    using rng by (rule top_frame_set_top_frame)
  have restore: "set_top_frame ?d1 (fr\<lparr>depth := depth fr + 1, depth := depth fr + 1 - 1\<rparr>) = d"
    using fr by (simp add: set_top_frame_twice set_top_frame_same)
  have nmin: "depth fr + 1 \<noteq> INT_MIN"
    using lo by (simp add: INT_MIN_def)
  have "upb_dispatch_endsubmsg hm ?d1 u2 = Inr (ret2, d, u3)"
    unfolding upb_dispatch_endsubmsg_def tf1
    using lo nmin fr hs es restore by (simp add: Let_def)
  with start show ?thesis by simp
qed

text \<open>
  The instance of scenario 5 of the specification, from the initial state: the depth of
  the top frame goes from 1 to 2 and back to 1.
\<close>

theorem nondelegated_submsg_depth_witness:
  "top_frame (example_dispatcher 2 20) = Inr \<lparr>handlers = \<lparr>set_ptr = 2, closure = 20\<rparr>, depth = 1\<rparr>
   \<and> upb_dispatch_startsubmsg example_memory (example_dispatcher 2 20) 7 []
     = Inr (UPB_CONTINUE,
            set_top_frame (example_dispatcher 2 20)
              \<lparr>handlers = \<lparr>set_ptr = 2, closure = 20\<rparr>, depth = 2\<rparr>,
            [(''S2.startsubmsg'', 20)])
   \<and> upb_dispatch_endsubmsg example_memory
        (set_top_frame (example_dispatcher 2 20)
              \<lparr>handlers = \<lparr>set_ptr = 2, closure = 20\<rparr>, depth = 2\<rparr>)
        [(''S2.startsubmsg'', 20), (''S2.value'', 20)]
     = Inr (UPB_CONTINUE, example_dispatcher 2 20,
            [(''S2.startsubmsg'', 20), (''S2.value'', 20), (''S2.endsubmsg'', 20)])"
proof -
  let ?d = "example_dispatcher 2 20"
  let ?fr = "\<lparr>handlers = \<lparr>set_ptr = 2, closure = 20\<rparr>, depth = 1\<rparr>"
  have fr: "top_frame ?d = Inr ?fr"
    by (simp add: example_dispatcher_def upb_dispatcher_reset_def upb_dispatcher_init_def
        blank_dispatcher_def set_top_frame_def top_frame_def Let_def)
  have hs: "handlerset_at example_memory (set_ptr (handlers ?fr)) = Inr S2"
    by (simp add: handlerset_at_def example_memory_def)
  have cb: "startsubmsg S2 (closure (handlers ?fr)) 7 \<lparr>set_ptr = NULL, closure = NULL\<rparr> []
              = (UPB_CONTINUE, \<lparr>set_ptr = NULL, closure = NULL\<rparr>, [(''S2.startsubmsg'', 20)])"
    by (simp add: S2_def tracing_set_def)
  have nd: "UPB_CONTINUE \<noteq> UPB_DELEGATE" by simp
  have em: "upb_handlers_isempty \<lparr>set_ptr = NULL, closure = NULL\<rparr>"
    by (simp add: upb_handlers_isempty_def)
  have lo: "1 \<le> depth ?fr" by simp
  have hi: "depth ?fr < INT_MAX" by (simp add: INT_MAX_def)
  have es: "endsubmsg S2 (closure (handlers ?fr)) [(''S2.startsubmsg'', 20), (''S2.value'', 20)]
              = (UPB_CONTINUE, [(''S2.startsubmsg'', 20), (''S2.value'', 20), (''S2.endsubmsg'', 20)])"
    by (simp add: S2_def tracing_set_def)
  from nondelegated_submsg_depth [OF fr hs cb nd em lo hi es] fr
  show ?thesis by simp
qed

section \<open>The checked delegation contract\<close>

text \<open>
  C5. A handlers value is empty exactly when both its set and its closure are null.
  \<^verbatim>\<open>upb_dispatch_startsubmsg\<close> fails its assertion exactly when the startsubmsg callback
  of the current handler set was called and its outcome is \<^verbatim>\<open>UPB_DELEGATE\<close> with an empty
  out-parameter, or another outcome with a non-empty one. So when every handler set in
  memory respects the contract, the assertion never fails.
\<close>

theorem startsubmsg_checks_delegate_contract:
  "(upb_handlers_isempty hnd \<longleftrightarrow> set_ptr hnd = NULL \<and> closure hnd = NULL)
   \<and> (upb_dispatch_startsubmsg hm d f u = Inl Assertion_Failed \<longleftrightarrow>
        (\<exists>fr hs ret h u1.
            top_frame d = Inr fr
          \<and> handlerset_at hm (set_ptr (handlers fr)) = Inr hs
          \<and> startsubmsg hs (closure (handlers fr)) f \<lparr>set_ptr = NULL, closure = NULL\<rparr> u
                = (ret, h, u1)
          \<and> (ret = UPB_DELEGATE) = upb_handlers_isempty h))
   \<and> ((\<forall>p hs. hm p = Some hs \<longrightarrow> delegate_contract hs)
        \<longrightarrow> upb_dispatch_startsubmsg hm d f u \<noteq> Inl Assertion_Failed)"
proof (intro conjI impI)
  show "upb_handlers_isempty hnd \<longleftrightarrow> set_ptr hnd = NULL \<and> closure hnd = NULL"
    by (simp add: upb_handlers_isempty_def)
next
  show chk: "upb_dispatch_startsubmsg hm d f u = Inl Assertion_Failed \<longleftrightarrow>
        (\<exists>fr hs ret h u1.
            top_frame d = Inr fr
          \<and> handlerset_at hm (set_ptr (handlers fr)) = Inr hs
          \<and> startsubmsg hs (closure (handlers fr)) f \<lparr>set_ptr = NULL, closure = NULL\<rparr> u
                = (ret, h, u1)
          \<and> (ret = UPB_DELEGATE) = upb_handlers_isempty h)" (is "?L \<longleftrightarrow> ?R")
  proof
    assume l: ?L
    from startsubmsg_assert_needs_callback [OF l] obtain fr hs where
      a: "top_frame d = Inr fr" "handlerset_at hm (set_ptr (handlers fr)) = Inr hs" by blast
    obtain ret h u1 where
      cb: "startsubmsg hs (closure (handlers fr)) f \<lparr>set_ptr = NULL, closure = NULL\<rparr> u = (ret, h, u1)"
      by (cases "startsubmsg hs (closure (handlers fr)) f \<lparr>set_ptr = NULL, closure = NULL\<rparr> u") auto
    from startsubmsg_assert_iff [OF a cb] l have "(ret = UPB_DELEGATE) = upb_handlers_isempty h"
      by simp
    with a cb show ?R by blast
  next
    assume ?R
    then obtain fr hs ret h u1 where
      a: "top_frame d = Inr fr" "handlerset_at hm (set_ptr (handlers fr)) = Inr hs"
      and cb: "startsubmsg hs (closure (handlers fr)) f \<lparr>set_ptr = NULL, closure = NULL\<rparr> u = (ret, h, u1)"
      and v: "(ret = UPB_DELEGATE) = upb_handlers_isempty h"
      by blast
    from startsubmsg_assert_iff [OF a cb] v show ?L by simp
  qed
  assume reg: "\<forall>p hs. hm p = Some hs \<longrightarrow> delegate_contract hs"
  show "upb_dispatch_startsubmsg hm d f u \<noteq> Inl Assertion_Failed"
  proof
    assume "upb_dispatch_startsubmsg hm d f u = Inl Assertion_Failed"
    with chk have "\<exists>fr hs ret h u1.
            top_frame d = Inr fr
          \<and> handlerset_at hm (set_ptr (handlers fr)) = Inr hs
          \<and> startsubmsg hs (closure (handlers fr)) f \<lparr>set_ptr = NULL, closure = NULL\<rparr> u
                = (ret, h, u1)
          \<and> (ret = UPB_DELEGATE) = upb_handlers_isempty h"
      by (rule iffD1)
    then obtain fr hs ret h u1 where
      a: "handlerset_at hm (set_ptr (handlers fr)) = Inr hs"
         "startsubmsg hs (closure (handlers fr)) f \<lparr>set_ptr = NULL, closure = NULL\<rparr> u = (ret, h, u1)"
         "(ret = UPB_DELEGATE) = upb_handlers_isempty h"
      and tf: "top_frame d = Inr fr"
      by (elim exE conjE)
    from a(1) have "hm (set_ptr (handlers fr)) = Some hs"
      by (auto simp: handlerset_at_def split: if_splits option.splits)
    with reg have "delegate_contract hs" by blast
    then have "(fst (startsubmsg hs (closure (handlers fr)) f \<lparr>set_ptr = NULL, closure = NULL\<rparr> u) = UPB_DELEGATE)
                 = (\<not> upb_handlers_isempty (fst (snd (startsubmsg hs (closure (handlers fr)) f \<lparr>set_ptr = NULL, closure = NULL\<rparr> u))))"
      by (simp add: delegate_contract_def)
    with a(2) have "(ret = UPB_DELEGATE) = (\<not> upb_handlers_isempty h)"
      by simp
    with a(3) show False by simp
  qed
qed

text \<open>
  \<open>S1\<close> and \<open>S2\<close> respect the contract and the assertion holds; \<open>S3\<close> does not,
  and the assertion fails.
\<close>

theorem startsubmsg_checks_delegate_contract_witness:
  "delegate_contract S1 \<and> delegate_contract S2
   \<and> upb_dispatch_startsubmsg example_memory (example_dispatcher 1 10) 7 [] \<noteq> Inl Assertion_Failed
   \<and> \<not> delegate_contract S3
   \<and> upb_dispatch_startsubmsg faulty_memory (example_dispatcher 3 30) 7 [] = Inl Assertion_Failed"
proof -
  have c1: "delegate_contract S1"
    by (simp add: delegate_contract_def S1_def tracing_set_def upb_handlers_isempty_def
        upb_set_handler_closure_def upb_register_handlerset_def)
  have c2: "delegate_contract S2"
    by (simp add: delegate_contract_def S2_def tracing_set_def upb_handlers_isempty_def)
  have c3: "\<not> delegate_contract S3"
    by (simp add: delegate_contract_def S3_def tracing_set_def upb_handlers_isempty_def)
  have reg: "\<forall>p hs. example_memory p = Some hs \<longrightarrow> delegate_contract hs"
    using c1 c2 by (simp add: example_memory_def)
  have fr: "top_frame (example_dispatcher 3 30)
              = Inr \<lparr>handlers = \<lparr>set_ptr = 3, closure = 30\<rparr>, depth = 1\<rparr>"
    by (simp add: example_dispatcher_def upb_dispatcher_reset_def upb_dispatcher_init_def
        blank_dispatcher_def set_top_frame_def top_frame_def Let_def)
  have bad: "\<exists>fr hs ret h u1.
            top_frame (example_dispatcher 3 30) = Inr fr
          \<and> handlerset_at faulty_memory (set_ptr (handlers fr)) = Inr hs
          \<and> startsubmsg hs (closure (handlers fr)) 7 \<lparr>set_ptr = NULL, closure = NULL\<rparr> []
                = (ret, h, u1)
          \<and> (ret = UPB_DELEGATE) = upb_handlers_isempty h"
    by (rule exI [of _ "\<lparr>handlers = \<lparr>set_ptr = 3, closure = 30\<rparr>, depth = 1\<rparr>"],
        rule exI [of _ S3], rule exI [of _ UPB_DELEGATE],
        rule exI [of _ "\<lparr>set_ptr = NULL, closure = NULL\<rparr>"],
        rule exI [of _ "[(''S3.startsubmsg'', 30)]"])
       (simp add: fr handlerset_at_def faulty_memory_def S3_def tracing_set_def
          upb_handlers_isempty_def)
  note chk = startsubmsg_checks_delegate_contract
  from chk [of "\<lparr>set_ptr = NULL, closure = NULL\<rparr>" example_memory "example_dispatcher 1 10" 7 "[]"] reg
  have good: "upb_dispatch_startsubmsg example_memory (example_dispatcher 1 10) 7 [] \<noteq> Inl Assertion_Failed"
    by blast
  from chk [of "\<lparr>set_ptr = NULL, closure = NULL\<rparr>" faulty_memory "example_dispatcher 3 30" 7 "[]"] bad
  have "upb_dispatch_startsubmsg faulty_memory (example_dispatcher 3 30) 7 [] = Inl Assertion_Failed"
    by blast
  with c1 c2 c3 good show ?thesis by simp
qed

section \<open>Facts about the read loop\<close>








lemma read_fails_loop:
  assumes "read_fails vt smax src str str' src'"
  shows "getfullstr_loop vt smax src str = Some (Inr (False, str', src'))"
  using assms
proof (induction rule: read_fails.induct)
  case (fails_now src str rd written src1)
  then show ?case
    by (subst getfullstr_loop.simps) (simp add: Let_def)
next
  case (fails_later src str rd written src1 str' src')
  then show ?case
    by (subst getfullstr_loop.simps) (simp add: Let_def)
qed

lemma loop_false_read_fails:
  fixes vt :: "'i upb_bytesrc_vtable"
  assumes run: "getfullstr_loop vt smax src str = Some (Inr (False, str', src'))"
  shows "read_fails vt smax src str str' src'"
proof -
  let ?P = "\<lambda>(vt :: 'i upb_bytesrc_vtable) (smax :: int) (src :: 'i upb_bytesrc) str
               (y :: fault + bool \<times> upb_string \<times> 'i upb_bytesrc).
           (\<forall>str' src'. y = Inr (False, str', src') \<longrightarrow> read_fails vt smax src str str' src')"
  note r = getfullstr_loop.raw_induct [where P = ?P, OF _ run]
  have "?P vt smax src str (Inr (False, str', src'))"
  proof (rule r, goal_cases)
    case (1 loop vt smax src str y)
    show ?case
    proof (intro impI allI)
      fix str' src'
      assume y: "y = Inr (False, str', src')"
      obtain rd written src1 where rr: "upb_bytesrc_read vt src bufsize = (rd, written, src1)"
        by (cases "upb_bytesrc_read vt src bufsize") auto
      let ?str1 = "store_at (upb_string_getrwbuf str (upb_string_len str + bufsize)) (upb_string_len str) written"
      let ?str2 = "upb_string_getrwbuf ?str1 (upb_string_len str + rd)"
      have ne: "\<not> upb_bytesrc_eof src"
      proof
        assume "upb_bytesrc_eof src"
        with 1(2) y show False by simp
      qed
      have fit: "upb_string_len str + bufsize \<le> smax"
      proof (rule ccontr)
        assume "\<not> upb_string_len str + bufsize \<le> smax"
        with 1(2) y ne show False by (simp add: Let_def)
      qed
      have wr: "int (length written) \<le> bufsize"
      proof (rule ccontr)
        assume "\<not> int (length written) \<le> bufsize"
        with 1(2) y ne fit rr show False by (simp add: Let_def)
      qed
      show "read_fails vt smax src str str' src'"
      proof (cases "rd < 0")
        case True
        from 1(2) y ne fit wr rr True have e: "str' = ?str1" "src' = src1"
          by (simp_all add: Let_def)
        from ne fit rr wr True have "read_fails vt smax src str ?str1 src1"
          by (rule read_fails.fails_now)
        then show ?thesis by (simp only: e)
      next
        case False
        have fit2: "upb_string_len str + rd \<le> smax"
        proof (rule ccontr)
          assume "\<not> upb_string_len str + rd \<le> smax"
          with 1(2) y ne fit wr rr False show False by (simp add: Let_def)
        qed
        from 1(2) ne fit wr rr False fit2 have rec: "loop vt smax src1 ?str2 = Some y"
          by (simp add: Let_def)
        from 1(1) [OF rec] y have rf: "read_fails vt smax src1 ?str2 str' src'" by simp
        from False have nn: "0 \<le> rd" by simp
        from ne fit rr wr nn fit2 rf show ?thesis by (rule read_fails.fails_later)
      qed
    qed
  qed
  then show ?thesis by simp
qed

lemma loop_false_iff:
  "getfullstr_loop vt smax src str = Some (Inr (False, str', src'))
     \<longleftrightarrow> read_fails vt smax src str str' src'"
  using read_fails_loop loop_false_read_fails by blast

lemma getfullstr_getstr_false:
  assumes "upb_bytesrc_getstr vt src str smax = (False, str1, src1)"
  shows "upb_bytesrc_getfullstr vt smax src str st = Some (Inr (False, str1, src1, status src1))"
  using assms by (simp add: upb_bytesrc_getfullstr_def upb_copyerr_def upb_bytesrc_status_def)

lemma getfullstr_getstr_true:
  assumes gs: "upb_bytesrc_getstr vt src str smax = (True, str1, src1)"
  shows "upb_bytesrc_getfullstr vt smax src str st = Some (Inr (False, str', src', st'))
          \<longleftrightarrow> getfullstr_loop vt smax src1 str1 = Some (Inr (False, str', src')) \<and> st' = status src'"
proof (cases "getfullstr_loop vt smax src1 str1")
  case None
  with gs show ?thesis by (simp add: upb_bytesrc_getfullstr_def)
next
  case (Some x)
  show ?thesis
  proof (cases x)
    case (Inl e)
    with gs Some show ?thesis by (simp add: upb_bytesrc_getfullstr_def)
  next
    case (Inr y)
    obtain b s2 c2 where y: "y = (b, s2, c2)" by (cases y) auto
    show ?thesis
    proof (cases b)
      case True
      with gs Some Inr y show ?thesis by (simp add: upb_bytesrc_getfullstr_def)
    next
      case False
      with gs Some Inr y show ?thesis
        by (auto simp add: upb_bytesrc_getfullstr_def upb_copyerr_def upb_bytesrc_status_def)
    qed
  qed
qed








section \<open>Reading a whole stream\<close>




section \<open>Failure of a read\<close>

text \<open>
  C7. Let the initial \<^verbatim>\<open>getstr\<close> return \<open>ok\<close>, leaving the string \<open>str1\<close> and the source
  \<open>src1\<close>. \<^verbatim>\<open>upb_bytesrc_getfullstr\<close> returns false exactly when \<open>ok\<close> is false or some
  \<^verbatim>\<open>read\<close> of the loop that follows returns a negative value. When it returns false, the
  source it hands back is the source exactly as the failing call left it (\<open>src1\<close> for the
  \<^verbatim>\<open>getstr\<close>, the source returned by the negative \<^verbatim>\<open>read\<close> otherwise), its status
  included, and the caller's status is on return that source's status, whatever the
  caller's status \<open>st\<close> was before: the copy goes from the source to the caller.
\<close>

theorem getfullstr_false_iff_failure:
  fixes vt :: "'i upb_bytesrc_vtable"
  assumes gs: "upb_bytesrc_getstr vt src str smax = (ok, str1, src1)"
  shows "(upb_bytesrc_getfullstr vt smax src str st = Some (Inr (False, str', src', st'))
          \<longleftrightarrow> ((\<not> ok \<and> str' = str1 \<and> src' = src1) \<or> (ok \<and> read_fails vt smax src1 str1 str' src'))
               \<and> st' = upb_copyerr st (upb_bytesrc_status src') \<and> st' = status src')
       \<and> ((\<exists>str' src' st'.
             upb_bytesrc_getfullstr vt smax src str st = Some (Inr (False, str', src', st')))
          \<longleftrightarrow> (\<not> ok \<or> (\<exists>str' src'. read_fails vt smax src1 str1 str' src')))"
proof (cases ok)
  case False
  with gs have g: "upb_bytesrc_getstr vt src str smax = (False, str1, src1)" by simp
  note res = getfullstr_getstr_false [OF g, of st]
  have a: "upb_bytesrc_getfullstr vt smax src str st = Some (Inr (False, str', src', st'))
          \<longleftrightarrow> ((\<not> ok \<and> str' = str1 \<and> src' = src1) \<or> (ok \<and> read_fails vt smax src1 str1 str' src'))
               \<and> st' = upb_copyerr st (upb_bytesrc_status src') \<and> st' = status src'"
    unfolding res using False
    by (auto simp: upb_copyerr_def upb_bytesrc_status_def)
  have "\<exists>str' src' st'.
          upb_bytesrc_getfullstr vt smax src str st = Some (Inr (False, str', src', st'))"
    unfolding res by blast
  with False have b: "(\<exists>str' src' st'.
             upb_bytesrc_getfullstr vt smax src str st = Some (Inr (False, str', src', st')))
          \<longleftrightarrow> (\<not> ok \<or> (\<exists>str' src'. read_fails vt smax src1 str1 str' src'))"
    by simp
  from a b show ?thesis ..
next
  case True
  with gs have g: "upb_bytesrc_getstr vt src str smax = (True, str1, src1)" by simp
  note run = getfullstr_getstr_true [OF g, of st]
  have a: "upb_bytesrc_getfullstr vt smax src str st = Some (Inr (False, str', src', st'))
          \<longleftrightarrow> ((\<not> ok \<and> str' = str1 \<and> src' = src1) \<or> (ok \<and> read_fails vt smax src1 str1 str' src'))
               \<and> st' = upb_copyerr st (upb_bytesrc_status src') \<and> st' = status src'"
    unfolding run loop_false_iff using True
    by (auto simp: upb_copyerr_def upb_bytesrc_status_def)
  have b: "(\<exists>str' src' st'.
             upb_bytesrc_getfullstr vt smax src str st = Some (Inr (False, str', src', st')))
          \<longleftrightarrow> (\<not> ok \<or> (\<exists>str' src'. read_fails vt smax src1 str1 str' src'))"
    unfolding run loop_false_iff using True by simp
  from a b show ?thesis ..
qed

text \<open>
  A source whose \<^verbatim>\<open>getstr\<close> fails, and a source whose first \<^verbatim>\<open>read\<close> fails: both set
  their status to an I/O error. The caller, whose status held an earlier error, receives
  the I/O error, and the source keeps it. After the failed \<^verbatim>\<open>read\<close> the string is left
  at the size it was grown to for the read.
\<close>

lemma failing_getstr_run:
  "upb_bytesrc_getfullstr (failing_vtable False) 2147483647 open_source [] status_stale
     = Some (Inr (False, [], \<lparr>status = status_io_error, eof = False, impl = ()\<rparr>, status_io_error))"
  by (simp add: upb_bytesrc_getfullstr_def upb_bytesrc_getstr_def upb_bytesrc_status_def
      upb_copyerr_def failing_vtable_def open_source_def)

lemma failing_read_run:
  "upb_bytesrc_getfullstr (failing_vtable True) 2147483647 open_source [] status_stale
     = Some (Inr (False, replicate 4096 (CHR 0x00),
                  \<lparr>status = status_io_error, eof = False, impl = ()\<rparr>, status_io_error))"
  by (simp add: upb_bytesrc_getfullstr_def upb_bytesrc_getstr_def upb_bytesrc_read_def
      upb_bytesrc_eof_def upb_bytesrc_status_def upb_copyerr_def failing_vtable_def open_source_def
      getfullstr_loop.simps bufsize_def upb_string_len_def upb_string_getrwbuf_def store_at_def Let_def)

theorem getfullstr_false_iff_failure_witness:
  "upb_bytesrc_getstr (failing_vtable True) open_source [] 2147483647 = (True, [], open_source)
   \<and> upb_bytesrc_getfullstr (failing_vtable True) 2147483647 open_source [] status_stale
     = Some (Inr (False, replicate 4096 (CHR 0x00),
                  \<lparr>status = status_io_error, eof = False, impl = ()\<rparr>, status_io_error))
   \<and> read_fails (failing_vtable True) 2147483647 open_source []
        (replicate 4096 (CHR 0x00)) \<lparr>status = status_io_error, eof = False, impl = ()\<rparr>
   \<and> status_io_error = upb_copyerr status_stale
        (upb_bytesrc_status \<lparr>status = status_io_error, eof = False, impl = ()\<rparr>)
   \<and> status_io_error \<noteq> status_stale
   \<and> upb_bytesrc_getstr (failing_vtable False) open_source [] 2147483647
       = (False, [], \<lparr>status = status_io_error, eof = False, impl = ()\<rparr>)
   \<and> upb_bytesrc_getfullstr (failing_vtable False) 2147483647 open_source [] status_stale
     = Some (Inr (False, [], \<lparr>status = status_io_error, eof = False, impl = ()\<rparr>, status_io_error))"
proof -
  have gs: "upb_bytesrc_getstr (failing_vtable True) open_source [] 2147483647 = (True, [], open_source)"
    by (simp add: upb_bytesrc_getstr_def failing_vtable_def)
  have gf: "upb_bytesrc_getstr (failing_vtable False) open_source [] 2147483647
       = (False, [], \<lparr>status = status_io_error, eof = False, impl = ()\<rparr>)"
    by (simp add: upb_bytesrc_getstr_def failing_vtable_def open_source_def)
  have ne: "status_io_error \<noteq> status_stale"
    by (simp add: status_io_error_def status_stale_def)
  note w = getfullstr_false_iff_failure [OF gs, where st = status_stale
      and str' = "replicate 4096 (CHR 0x00)"
      and src' = "\<lparr>status = status_io_error, eof = False, impl = ()\<rparr>"
      and st' = status_io_error]
  from w failing_read_run
  have rf: "read_fails (failing_vtable True) 2147483647 open_source []
        (replicate 4096 (CHR 0x00)) \<lparr>status = status_io_error, eof = False, impl = ()\<rparr>"
    and st: "status_io_error = upb_copyerr status_stale
        (upb_bytesrc_status \<lparr>status = status_io_error, eof = False, impl = ()\<rparr>)"
    by blast+
  from gs failing_read_run rf st ne gf failing_getstr_run show ?thesis by (intro conjI)
qed

section \<open>Termination of the read loop\<close>




section \<open>Compiled-in objects\<close>

text \<open>
  An object initialised with \<^verbatim>\<open>UPB_REFCOUNT_INIT\<close> is frozen from the start, has individual
  count 0, neither a next link nor a vtable, and its group pointer is the address of the
  shared counter \<^verbatim>\<open>static_refcount\<close>.
\<close>

lemma static_object_fields:
  "is_frozen (UPB_REFCOUNT_INIT a) \<and> individual_count (UPB_REFCOUNT_INIT a) = 0
   \<and> group_ptr (UPB_REFCOUNT_INIT a) = a
   \<and> next_ptr (UPB_REFCOUNT_INIT a) = NULL \<and> vtbl (UPB_REFCOUNT_INIT a) = NULL"
  by (simp add: UPB_REFCOUNT_INIT_def)

end
